theory Spec2Isabelle
  imports Main "HOL-Library.AList" "HOL-Library.Multiset"
begin

section \<open>Data model\<close>

text \<open>
  The schema editor keeps one \<open>TableState\<close>: a JavaScript object whose keys are table
  identifiers and whose values are \<open>Table\<close> objects. Enumeration order matters to the
  exporters (\<open>Object.entries\<close>, \<open>Object.keys\<close>), so the object is an association list
  in enumeration order; assignment to a key is \<open>AList.update\<close> (replace in place, or
  append), \<open>delete\<close> is \<open>AList.delete\<close>, lookup is \<open>map_of\<close>.
  Optional fields (\<open>string | undefined\<close>) are \<open>option\<close>s; \<open>unknown\<close> values are
  \<open>jsvalue\<close>s. Table identifiers are taken not to be integer-like strings, which
  JavaScript would enumerate first.

  Field names are the program's, except where two records would share one or a name
  is wanted for variables: \<open>Table.title\<close> is \<open>t_title\<close>, the position is
  \<open>pos_x\<close>, \<open>pos_y\<close>, the fields of a tool's column input start with \<open>in_\<close>, those of
  a patch with \<open>p_\<close>, and an operation record's \<open>id\<close> and \<open>type\<close> are \<open>op_id\<close> and
  \<open>op_type\<close>.
\<close>

datatype jsvalue =
    JNull
  | JBool bool
  | JNum int
  | JStr string
  | JArr "jsvalue list"
  | JObj "(string \<times> jsvalue) list"

record Column =
  title :: string
  type :: string
  format :: string
  default :: "jsvalue option"
  required :: bool
  pk :: bool
  fk :: "string option"
  enumValues :: "string list option"
  enumTypeName :: "string option"
  comment :: "string option"

record Position =
  pos_x :: int
  pos_y :: int

record Table =
  t_title :: string
  schema :: "string option"
  is_view :: bool
  columns :: "Column list"
  position :: Position

type_synonym TableState = "(string \<times> Table) list"

datatype error = TypeError | DataCloneError

section \<open>JavaScript string helpers\<close>

text \<open>\<open>s.split(sep)\<close> for a one-character separator: never the empty array.\<close>

fun js_split :: "char \<Rightarrow> string \<Rightarrow> string list" where
  "js_split sep [] = [[]]"
| "js_split sep (c # cs) =
     (if c = sep then [] # js_split sep cs
      else (case js_split sep cs of
              [] \<Rightarrow> [[c]]
            | w # ws \<Rightarrow> (c # w) # ws))"

text \<open>\<open>xs[i]\<close>: \<open>undefined\<close> out of range.\<close>

fun js_index :: "'a list \<Rightarrow> nat \<Rightarrow> 'a option" where
  "js_index [] i = None"
| "js_index (a # as) 0 = Some a"
| "js_index (a # as) (Suc i) = js_index as i"

text \<open>A value of type \<open>string | undefined\<close> in a template literal.\<close>

definition js_template :: "string option \<Rightarrow> string" where
  "js_template v = (case v of None \<Rightarrow> ''undefined'' | Some s \<Rightarrow> s)"

text \<open>Truthiness of a \<open>string | undefined\<close>: defined and not empty.\<close>

definition truthy :: "string option \<Rightarrow> bool" where
  "truthy v = (case v of None \<Rightarrow> False | Some s \<Rightarrow> s \<noteq> [])"

text \<open>\<open>s.includes(t)\<close>: \<open>t\<close> occurs in \<open>s\<close> as a contiguous substring.\<close>

fun js_includes :: "string \<Rightarrow> string \<Rightarrow> bool" where
  "js_includes [] t = (t = [])"
| "js_includes (c # cs) t = (take (length t) (c # cs) = t \<or> js_includes cs t)"

section \<open>Dependency ordering (ModalSQL and ModalTypes, the same loop in both)\<close>

text \<open>\<open>v.fk?.split('.')[0]\<close>\<close>

definition fkTable :: "Column \<Rightarrow> string option" where
  "fkTable v = (case fk v of None \<Rightarrow> None | Some s \<Rightarrow> js_index (js_split CHR ''.'' s) 0)"

text \<open>
  \<open>dependencies[table] = value.columns.map(v => v.fk?.split('.')[0])
      .filter(v => typeof v === 'string').filter(v => table != v)\<close>
\<close>

definition dependenciesOf :: "string \<Rightarrow> Table \<Rightarrow> string list" where
  "dependenciesOf table value =
     filter (\<lambda>v. table \<noteq> v) (List.map_filter fkTable (columns value))"

definition dependencies :: "TableState \<Rightarrow> (string \<times> string list) list" where
  "dependencies tables = map (\<lambda>(table, value). (table, dependenciesOf table value)) tables"

text \<open>
  One run of \<open>for (let i in keys)\<close>. The index names are fixed when the loop starts;
  an index that \<open>keys.splice\<close> has removed before it is reached is not visited. The
  body reads \<open>keys[i]\<close> in the array as it is by then, so the key that moves into a
  spliced slot is passed over in this run. \<open>d.every\<close> on a missing entry of
  \<open>dependencies\<close> is a TypeError.
\<close>

fun forIn :: "(string \<times> string list) list \<Rightarrow> nat list \<Rightarrow> string list \<times> string list
    \<Rightarrow> error + (string list \<times> string list)" where
  "forIn deps [] (keys, output) = Inr (keys, output)"
| "forIn deps (i # is) (keys, output) =
     (if i < length keys then
        (let key = keys ! i in
         case map_of deps key of
           None \<Rightarrow> Inl TypeError
         | Some d \<Rightarrow>
             if list_all (\<lambda>dependency. dependency \<in> set output) d
             then forIn deps is (take i keys @ drop (Suc i) keys, output @ [key])
             else forIn deps is (keys, output))
      else forIn deps is (keys, output))"

text \<open>
  \<open>while (keys.length) { for (let i in keys) ... }\<close>: no bound on the number of runs,
  so the loop is a partial function; \<open>None\<close> is a loop that never ends.
\<close>

partial_function (option) whileKeys ::
    "(string \<times> string list) list \<Rightarrow> string list \<times> string list \<Rightarrow> (error + string list) option" where
  "whileKeys deps st =
     (if fst st = [] then Some (Inr (snd st))
      else (case forIn deps [0..<length (fst st)] st of
              Inl e \<Rightarrow> Some (Inl e)
            | Inr st' \<Rightarrow> whileKeys deps st'))"

declare whileKeys.simps [code]

definition dependencyOrder :: "TableState \<Rightarrow> (error + string list) option" where
  "dependencyOrder tables =
     (let deps = dependencies tables in whileKeys deps (map fst deps, []))"

section \<open>SQL export (ModalSQL)\<close>

definition reservedKeyword :: "string list" where
  "reservedKeyword =
     [''user'', ''database'', ''default'', ''dictionary'', ''files'', ''group'', ''index'',
      ''level'', ''max'', ''min'', ''password'', ''procedure'', ''table'', ''user'', ''view'']"

text \<open>
  The body of \<open>value.columns.forEach((v, i, arr) => ...)\<close>: \<open>code\<close> is the text so far,
  every \<open>code += ...\<close> appends. \<open>CHR 0x22\<close> is the double quote, \<open>CHR 0x0A\<close> the
  newline. A segment that \<open>split\<close> does not have prints as \<open>undefined\<close>.
\<close>

definition emitColumn :: "string \<Rightarrow> Column \<Rightarrow> nat \<Rightarrow> Column list \<Rightarrow> string" where
  "emitColumn code0 v i arr =
     (let code1 = (if title v \<in> set reservedKeyword
                   then code0 @ ''  '' @ [CHR 0x22] @ title v @ [CHR 0x22]
                   else code0 @ ''  '' @ title v);
          code2 = (if format v = ''integer'' \<and> pk v
                   then code1 @ '' serial''
                   else code1 @ '' '' @ format v);
          code3 = (case fk v of
                     None \<Rightarrow> code2
                   | Some s \<Rightarrow>
                       if s \<noteq> []
                       then code2 @ '' references '' @ js_template (js_index (js_split CHR ''.'' s) 0)
                              @ '' ('' @ js_template (js_index (js_split CHR ''.'' s) 1) @ '')''
                       else code2);
          code4 = (if format v = ''date'' \<or> js_includes (format v) ''timestamp''
                   then code3 @ '' default now()''
                   else code3);
          code5 = (if required v \<and> format v = ''uuid'' \<and> \<not> truthy (fk v)
                   then code4 @ '' default uuid_generate_v4()''
                   else if required v \<and> \<not> truthy (fk v)
                   then code4 @ '' not null''
                   else code4);
          code6 = (if pk v then code5 @ '' primary key'' else code5)
      in if int i = int (length arr) - 1
         then code6 @ [CHR 0x0A]
         else code6 @ '','' @ [CHR 0x0A])"

text \<open>
  The body of \<open>output.forEach(v => ...)\<close>: a view returns at once; \<open>tables[v]\<close> of a
  missing key is \<open>undefined\<close>, and reading \<open>is_view\<close> from it a TypeError.
\<close>

definition emitTable :: "TableState \<Rightarrow> string \<Rightarrow> string \<Rightarrow> error + string" where
  "emitTable tables code0 v =
     (case map_of tables v of
        None \<Rightarrow> Inl TypeError
      | Some value \<Rightarrow>
          if is_view value then Inr code0
          else
            (let code1 = code0 @ ''create table '' @ v @ '' ('' @ [CHR 0x0A];
                 code2 = foldl (\<lambda>code (i, c). emitColumn code c i (columns value)) code1
                           (enumerate 0 (columns value))
             in Inr (code2 @ '');'' @ [CHR 0x0A, CHR 0x0A])))"

fun forEachOutput :: "TableState \<Rightarrow> string \<Rightarrow> string list \<Rightarrow> error + string" where
  "forEachOutput tables code [] = Inr code"
| "forEachOutput tables code (v # vs) =
     (case emitTable tables code v of
        Inl e \<Rightarrow> Inl e
      | Inr code' \<Rightarrow> forEachOutput tables code' vs)"

text \<open>\<open>exportedCode\<close> of ModalSQL: \<open>None\<close> when the ordering loop never ends.\<close>

definition exportedCode :: "TableState \<Rightarrow> (error + string) option" where
  "exportedCode tables =
     (case dependencyOrder tables of
        None \<Rightarrow> None
      | Some (Inl e) \<Rightarrow> Some (Inl e)
      | Some (Inr output) \<Rightarrow> Some (forEachOutput tables [] output))"

section \<open>The foreign-key reference graph\<close>

text \<open>
  The graph the ordering is specified against: an edge from a table key to the table
  name in front of the first dot of each of its columns' \<open>fk\<close> strings, references of a
  table to itself left out.
\<close>

definition referencedTable :: "Column \<Rightarrow> string list" where
  "referencedTable c =
     (case fk c of None \<Rightarrow> [] | Some s \<Rightarrow> [takeWhile (\<lambda>ch. ch \<noteq> CHR ''.'') s])"

definition fkEdges :: "TableState \<Rightarrow> (string \<times> string) list" where
  "fkEdges tables =
     concat (map (\<lambda>(table, value).
        map (Pair table) (filter (\<lambda>r. r \<noteq> table) (concat (map referencedTable (columns value)))))
        tables)"

text \<open>Every referenced name is the key of a table of the schema.\<close>

definition fkClosed :: "TableState \<Rightarrow> bool" where
  "fkClosed tables = list_all (\<lambda>(table, r). r \<in> set (map fst tables)) (fkEdges tables)"

text \<open>
  No table stands before a table it references: whenever the table at place \<open>i\<close>
  references the table at place \<open>j\<close>, place \<open>j\<close> is the earlier one.
\<close>

definition placedAfterTargets :: "TableState \<Rightarrow> string list \<Rightarrow> bool" where
  "placedAfterTargets tables output =
     (\<forall>i<length output. \<forall>j<length output.
        (output ! i, output ! j) \<in> set (fkEdges tables) \<longrightarrow> j < i)"

text \<open>Auxiliary notions of the proofs about the ordering loop.\<close>

definition wellPlaced :: "(string \<times> string list) list \<Rightarrow> string list \<Rightarrow> bool" where
  "wellPlaced deps out =
     (\<forall>i<length out. \<forall>d. map_of deps (out ! i) = Some d \<longrightarrow> set d \<subseteq> set (take i out))"

definition edgesOf :: "(string \<times> string list) list \<Rightarrow> (string \<times> string) set" where
  "edgesOf deps = {(k, r). \<exists>d. map_of deps k = Some d \<and> r \<in> set d}"

section \<open>The CREATE TABLE text as the specification words it\<close>

definition reservedWords :: "string set" where
  "reservedWords =
     {''user'', ''database'', ''default'', ''dictionary'', ''files'', ''group'', ''index'',
      ''level'', ''max'', ''min'', ''password'', ''procedure'', ''table'', ''view''}"

text \<open>The identifier, double-quoted when it is a reserved word.\<close>

definition identifierText :: "Column \<Rightarrow> string" where
  "identifierText c =
     (if title c \<in> reservedWords then [CHR 0x22] @ title c @ [CHR 0x22] else title c)"

text \<open>\<open>serial\<close> for an integer primary key, the raw format otherwise.\<close>

definition typeText :: "Column \<Rightarrow> string" where
  "typeText c = (if format c = ''integer'' \<and> pk c then ''serial'' else format c)"

text \<open>
  An \<open>fk\<close> is set when it is a non-empty string. Its table is the text in front of
  the first dot, its column the text between the first dot and the second; an \<open>fk\<close>
  without a dot has no column, which prints as \<open>undefined\<close>.
\<close>

definition fkTableName :: "string \<Rightarrow> string" where
  "fkTableName s = takeWhile (\<lambda>ch. ch \<noteq> CHR ''.'') s"

definition fkColumnName :: "string \<Rightarrow> string" where
  "fkColumnName s =
     (if CHR ''.'' \<in> set s
      then takeWhile (\<lambda>ch. ch \<noteq> CHR ''.'') (tl (dropWhile (\<lambda>ch. ch \<noteq> CHR ''.'') s))
      else ''undefined'')"

definition referencesText :: "Column \<Rightarrow> string" where
  "referencesText c =
     (case fk c of
        None \<Rightarrow> []
      | Some s \<Rightarrow>
          if s = [] then []
          else '' references '' @ fkTableName s @ '' ('' @ fkColumnName s @ '')'')"

definition defaultNowText :: "Column \<Rightarrow> string" where
  "defaultNowText c =
     (if format c = ''date'' \<or> js_includes (format c) ''timestamp''
      then '' default now()'' else [])"

definition requiredText :: "Column \<Rightarrow> string" where
  "requiredText c =
     (if required c \<and> format c = ''uuid'' \<and> \<not> truthy (fk c)
      then '' default uuid_generate_v4()''
      else if required c \<and> \<not> truthy (fk c) then '' not null''
      else [])"

definition primaryKeyText :: "Column \<Rightarrow> string" where
  "primaryKeyText c = (if pk c then '' primary key'' else [])"

definition columnLine :: "Column \<Rightarrow> bool \<Rightarrow> string" where
  "columnLine c isLast =
     ''  '' @ identifierText c @ '' '' @ typeText c @ referencesText c @ defaultNowText c
       @ requiredText c @ primaryKeyText c
       @ (if isLast then [CHR 0x0A] else '','' @ [CHR 0x0A])"

fun columnLines :: "Column list \<Rightarrow> string" where
  "columnLines [] = []"
| "columnLines [c] = columnLine c True"
| "columnLines (c # c' # cs) = columnLine c False @ columnLines (c' # cs)"

definition createTableText :: "string \<Rightarrow> Table \<Rightarrow> string" where
  "createTableText ident t =
     ''create table '' @ ident @ '' ('' @ [CHR 0x0A] @ columnLines (columns t)
       @ '');'' @ [CHR 0x0A, CHR 0x0A]"

text \<open>The text of one table of the schema: nothing for a view.\<close>

definition tableText :: "TableState \<Rightarrow> string \<Rightarrow> string" where
  "tableText tables ident =
     (case map_of tables ident of
        None \<Rightarrow> []
      | Some t \<Rightarrow> if is_view t then [] else createTableText ident t)"

definition schemaSQL :: "TableState \<Rightarrow> string list \<Rightarrow> string" where
  "schemaSQL tables output = concat (map (tableText tables) output)"

section \<open>More JavaScript helpers\<close>

text \<open>\<open>a ?? b\<close>: the left operand unless it is \<open>undefined\<close>.\<close>

definition coalesce :: "'a option \<Rightarrow> 'a \<Rightarrow> 'a" where
  "coalesce a b = (case a of None \<Rightarrow> b | Some v \<Rightarrow> v)"

text \<open>\<open>a || b\<close> on strings that may be \<open>undefined\<close>: the left operand when it is truthy.\<close>

definition js_or :: "string option \<Rightarrow> string option \<Rightarrow> string option" where
  "js_or a b = (if truthy a then a else b)"

text \<open>\<open>parts.join(sep)\<close>\<close>

fun js_join :: "string \<Rightarrow> string list \<Rightarrow> string" where
  "js_join sep [] = []"
| "js_join sep [p] = p"
| "js_join sep (p # q # ps) = p @ sep @ js_join sep (q # ps)"

text \<open>A natural number in a template literal: its decimal digits.\<close>

fun js_number :: "nat \<Rightarrow> string" where
  "js_number n =
     (if n < 10 then [char_of (48 + n)]
      else js_number (n div 10) @ [char_of (48 + n mod 10)])"

text \<open>\<open>'...'\<close> around a name in a message; \<open>CHR 0x27\<close> is the apostrophe.\<close>

definition quoted :: "string \<Rightarrow> string" where
  "quoted s = [CHR 0x27] @ s @ [CHR 0x27]"

text \<open>\<open>s.toLowerCase()\<close> on the ASCII letters; other bytes are kept.\<close>

definition lowerChar :: "char \<Rightarrow> char" where
  "lowerChar c =
     (if 65 \<le> (of_char c :: nat) \<and> (of_char c :: nat) \<le> 90
      then char_of ((of_char c :: nat) + 32) else c)"

definition toLowerCase :: "string \<Rightarrow> string" where
  "toLowerCase s = map lowerChar s"

text \<open>\<open>xs.findIndex(p)\<close>: \<open>None\<close> stands for \<open>-1\<close>.\<close>

fun findIndex :: "('a \<Rightarrow> bool) \<Rightarrow> 'a list \<Rightarrow> nat option" where
  "findIndex p [] = None"
| "findIndex p (a # as) =
     (if p a then Some 0 else map_option Suc (findIndex p as))"

text \<open>\<open>set.add(v)\<close> on a \<open>Set\<close> kept in insertion order.\<close>

definition setAdd :: "'a list \<Rightarrow> 'a \<Rightarrow> 'a list" where
  "setAdd vs v = (if v \<in> set vs then vs else vs @ [v])"

section \<open>Identifiers and column normalisation (agent tools)\<close>

definition parseTableIdentifier :: "string \<Rightarrow> string option \<times> string" where
  "parseTableIdentifier tableId =
     (let parts = js_split CHR ''.'' tableId in
      if length parts > 1
      then (Some (js_join ''.'' (butlast parts)), last parts)
      else (None, tableId))"

record ColumnInput =
  in_title :: string
  in_type :: "string option"
  in_format :: "string option"
  in_default :: "jsvalue option"
  in_required :: "bool option"
  in_pk :: "bool option"
  in_fk :: "string option"
  in_enumValues :: "string list option"
  in_enumTypeName :: "string option"
  in_comment :: "string option"

text \<open>\<open>normaliseColumn\<close> of the agent route.\<close>

definition normaliseColumn :: "ColumnInput \<Rightarrow> Column" where
  "normaliseColumn col =
     (let type' = coalesce (in_format col) (coalesce (in_type col) ''text'');
          format' = coalesce (in_type col) (coalesce (in_format col) type')
      in \<lparr>title = in_title col,
          type = type',
          format = format',
          default = in_default col,
          required = coalesce (in_required col) False,
          pk = coalesce (in_pk col) False,
          fk = in_fk col,
          enumValues = in_enumValues col,
          enumTypeName = in_enumTypeName col,
          comment = in_comment col\<rparr>)"

text \<open>\<open>normaliseColumn\<close> of the legacy route (\<open>modifySchema\<close>).\<close>

definition normaliseColumn_legacy :: "ColumnInput \<Rightarrow> Column" where
  "normaliseColumn_legacy input =
     (let type' = coalesce (in_type input) (coalesce (in_format input) ''string'');
          format' = coalesce (in_format input) type'
      in \<lparr>title = in_title input,
          type = type',
          format = format',
          default = in_default input,
          required = coalesce (in_required input) False,
          pk = coalesce (in_pk input) False,
          fk = in_fk input,
          enumValues = in_enumValues input,
          enumTypeName = in_enumTypeName input,
          comment = in_comment input\<rparr>)"

section \<open>The agent route: state, operation records, tools\<close>

datatype OperationType =
    OpCreateTable | OpDropTable | OpRenameTable | OpAddColumn | OpDropColumn | OpAlterColumn

record OperationRecord =
  op_id :: string
  op_type :: OperationType
  tableId :: string
  before :: "Table option"
  after :: "Table option"
  timestamp :: nat
  description :: string

text \<open>
  What one request's closure holds: the working copy of the schema, the two counters,
  the history and the abort flag of its \<open>AbortController\<close> (once set, never reset).
\<close>

record AgentState =
  schemaState :: TableState
  operationCount :: nat
  totalOperations :: nat
  operationHistory :: "OperationRecord list"
  aborted :: bool

text \<open>
  What a call reads from outside the state: the string \<open>generateOperationId()\<close> returns
  (built from \<open>Date.now()\<close> and \<open>Math.random()\<close>) and the \<open>Date.now()\<close> of the timestamp.
\<close>

record Env =
  generatedId :: string
  now :: nat

text \<open>
  \<open>structuredClone\<close> of a table (\<open>null\<close> for none). Tables are values here, so the copy
  is the table itself; that the copy shares no object with the original is not
  something a value can say.
\<close>

definition cloneTable :: "Table option \<Rightarrow> Table option" where
  "cloneTable table = (case table of None \<Rightarrow> None | Some t \<Rightarrow> Some t)"

definition recordOperation ::
    "Env \<Rightarrow> OperationType \<Rightarrow> string \<Rightarrow> Table option \<Rightarrow> Table option \<Rightarrow> string
      \<Rightarrow> AgentState \<Rightarrow> AgentState" where
  "recordOperation env ty tid beforeT afterT descr s =
     s\<lparr>operationHistory := operationHistory s @
         [\<lparr>op_id = generatedId env,
           op_type = ty,
           tableId = tid,
           before = cloneTable beforeT,
           after = cloneTable afterT,
           timestamp = now env,
           description = descr\<rparr>]\<rparr>"

record TableSummary =
  ts_id :: string
  ts_schema :: string
  ts_title :: string
  ts_isView :: bool
  ts_columnCount :: nat
  ts_columns :: "Column list option"

text \<open>
  What a tool call gives. \<open>Rejected m\<close> is \<open>{ok: false, message: m}\<close>. \<open>InheritedDetailsOk\<close>
  is the \<open>{ok: true, table}\<close> of \<open>getTableDetails\<close> whose \<open>table\<close> is no table but a member
  of \<open>Object.prototype\<close>. \<open>Threw e\<close> is no return: the call throws \<open>e\<close>. \<open>LeavesModel r\<close>:
  the call returns \<open>r\<close> and takes the program out of the states modelled here (see
  \<open>js_get\<close> below).
\<close>

datatype ToolResult =
    Rejected string
  | CreateTableOk string string nat "string list"
  | DropTableOk string nat
  | RenameTableOk string
  | AddColumnOk string string nat
  | DropColumnOk string nat
  | AlterColumnOk string "string list"
  | TableDetailsOk Table
  | InheritedDetailsOk
  | SchemasResult "string list" nat
  | TablesResult nat "TableSummary list"
  | Threw error
  | LeavesModel ToolResult

text \<open>The \<open>ok\<close> field of a result; the two listings have none, a throw gives no result.\<close>

fun ok :: "ToolResult \<Rightarrow> bool option" where
  "ok (Rejected m) = Some False"
| "ok (SchemasResult ss n) = None"
| "ok (TablesResult n ts) = None"
| "ok (Threw e) = None"
| "ok (LeavesModel r) = ok r"
| "ok r = Some True"

text \<open>
  \<open>schemaState\<close> is a plain object, so \<open>schemaState[key]\<close> finds an own property or, when
  there is none, a member of \<open>Object.prototype\<close>: one of its functions, or, for
  \<open>__proto__\<close>, the prototype object itself. The tools test what they read for
  truthiness only, and all of these are truthy.
\<close>

definition objectPrototypeFunctions :: "string list" where
  "objectPrototypeFunctions =
     [''constructor'', ''__defineGetter__'', ''__defineSetter__'', ''hasOwnProperty'',
      ''__lookupGetter__'', ''__lookupSetter__'', ''isPrototypeOf'', ''propertyIsEnumerable'',
      ''toString'', ''valueOf'', ''toLocaleString'']"

datatype Lookup = Missing | Own Table | InheritedFunction | InheritedPrototype

definition js_get :: "TableState \<Rightarrow> string \<Rightarrow> Lookup" where
  "js_get tables key =
     (case map_of tables key of
        Some t \<Rightarrow> Own t
      | None \<Rightarrow>
          if key = ''__proto__'' then InheritedPrototype
          else if key \<in> set objectPrototypeFunctions then InheritedFunction
          else Missing)"

text \<open>The table a lookup found, for the uses that read a field of it (\<open>existing?.position\<close>).\<close>

definition tableOf :: "Lookup \<Rightarrow> Table option" where
  "tableOf found = (case found of Own t \<Rightarrow> Some t | _ \<Rightarrow> None)"

text \<open>
  \<open>schemaState[key] = table\<close> adds or replaces an own property, except for \<open>__proto__\<close>
  when that is not an own property: then the setter of \<open>Object.prototype\<close> makes \<open>table\<close>
  the prototype of \<open>schemaState\<close> and no key is added.
\<close>

definition setsPrototype :: "TableState \<Rightarrow> string \<Rightarrow> bool" where
  "setsPrototype tables key = (key = ''__proto__'' \<and> map_of tables key = None)"

text \<open>
  The states of this model are a \<open>TableState\<close> whose prototype is the untouched
  \<open>Object.prototype\<close>, with a history of table snapshots. With a key that is not an own
  property but is found all the same, a tool goes on with a value that is not a table.
  \<open>structuredClone\<close> of a function throws a \<open>DataCloneError\<close>, and the model has that throw,
  after what the call did before it. In the other cases the program replaces the
  prototype of \<open>schemaState\<close>, adds a property to \<open>Object.prototype\<close> or to one of its
  functions, or stores or records an object that is not a table (the clone of
  \<open>Object.prototype\<close> is \<open>{}\<close>): it leaves the states of the model. Such a call gives
  \<open>LeavesModel r\<close> with the result \<open>r\<close> the program returns; the state given with it holds
  the typed variables as far as the call set them, and says nothing of the program
  from there on.
\<close>

definition cancelled :: ToolResult where
  "cancelled = Rejected ''Operation cancelled''"

definition tableNotFound :: "string \<Rightarrow> ToolResult" where
  "tableNotFound tid = Rejected (''Table '' @ quoted tid @ '' not found'')"

definition kindWord :: "bool \<Rightarrow> string" where
  "kindWord isView = (if isView then ''view'' else ''table'')"

definition createTable ::
    "Env \<Rightarrow> string \<Rightarrow> ColumnInput list \<Rightarrow> bool option \<Rightarrow> AgentState \<Rightarrow> ToolResult \<times> AgentState" where
  "createTable env tid cols isViewOpt s =
     (if aborted s then (cancelled, s)
      else
        (let isView = coalesce isViewOpt False;
             s1 = s\<lparr>operationCount := operationCount s + 1\<rparr>;
             schema' = fst (parseTableIdentifier tid);
             normalizedColumns = map normaliseColumn cols;
             found = js_get (schemaState s1) tid;
             result = CreateTableOk (''Created '' @ kindWord isView @ '' '' @ quoted tid) tid
                        (length normalizedColumns) (map title normalizedColumns)
         in case found of
              InheritedFunction \<Rightarrow> (Threw DataCloneError, s1)
            | InheritedPrototype \<Rightarrow> (LeavesModel result, s1)
            | _ \<Rightarrow>
                (let existing = tableOf found;
                     beforeState = cloneTable existing;
                     n = int (length (schemaState s1));
                     table = \<lparr>t_title = snd (parseTableIdentifier tid),
                              schema = js_or schema' (Some ''public''),
                              is_view = isView,
                              columns = normalizedColumns,
                              position = (case existing of
                                            Some e \<Rightarrow> position e
                                          | None \<Rightarrow> \<lparr>pos_x = 100 + n * 50, pos_y = 100 + n * 50\<rparr>)\<rparr>;
                     s2 = s1\<lparr>schemaState := AList.update tid table (schemaState s1)\<rparr>;
                     s3 = recordOperation env OpCreateTable tid beforeState (Some table)
                            (''Created '' @ kindWord isView @ '' '' @ quoted tid @ '' with ''
                               @ js_number (length normalizedColumns) @ '' columns'') s2
                 in (result, s3))))"

definition dropTable :: "Env \<Rightarrow> string \<Rightarrow> AgentState \<Rightarrow> ToolResult \<times> AgentState" where
  "dropTable env tid s =
     (if aborted s then (cancelled, s)
      else case js_get (schemaState s) tid of
        Missing \<Rightarrow> (tableNotFound tid, s)
      | InheritedFunction \<Rightarrow> (Threw DataCloneError, s\<lparr>operationCount := operationCount s + 1\<rparr>)
      | InheritedPrototype \<Rightarrow>
          (LeavesModel (DropTableOk (''Dropped table '' @ quoted tid) (length (schemaState s))),
           s\<lparr>operationCount := operationCount s + 1\<rparr>)
      | Own t \<Rightarrow>
          (let s1 = s\<lparr>operationCount := operationCount s + 1\<rparr>;
               beforeState = cloneTable (Some t);
               s2 = s1\<lparr>schemaState := AList.delete tid (schemaState s1)\<rparr>;
               s3 = recordOperation env OpDropTable tid beforeState None
                      (''Dropped table '' @ quoted tid) s2
           in (DropTableOk (''Dropped table '' @ quoted tid) (length (schemaState s3)), s3)))"

definition renameTable :: "Env \<Rightarrow> string \<Rightarrow> string \<Rightarrow> AgentState \<Rightarrow> ToolResult \<times> AgentState" where
  "renameTable env fromTableId toTableId s =
     (if aborted s then (cancelled, s)
      else case js_get (schemaState s) fromTableId of
        Missing \<Rightarrow> (tableNotFound fromTableId, s)
      | InheritedFunction \<Rightarrow> (Threw DataCloneError, s\<lparr>operationCount := operationCount s + 1\<rparr>)
      | InheritedPrototype \<Rightarrow>
          (LeavesModel (RenameTableOk (''Renamed '' @ quoted fromTableId @ '' to '' @ quoted toTableId)),
           s\<lparr>operationCount := operationCount s + 1\<rparr>)
      | Own source \<Rightarrow>
          (let s1 = s\<lparr>operationCount := operationCount s + 1\<rparr>;
               beforeState = cloneTable (Some source);
               schema' = fst (parseTableIdentifier toTableId);
               updated = source\<lparr>schema := js_or schema' (js_or (schema source) (Some ''public'')),
                                t_title := snd (parseTableIdentifier toTableId)\<rparr>;
               deleted = AList.delete fromTableId (schemaState s1);
               s2 = s1\<lparr>schemaState := (if setsPrototype deleted toTableId then deleted
                                         else AList.update toTableId updated deleted)\<rparr>;
               s3 = recordOperation env OpRenameTable toTableId beforeState (Some updated)
                      (''Renamed table '' @ quoted fromTableId @ '' to '' @ quoted toTableId) s2;
               result = RenameTableOk (''Renamed '' @ quoted fromTableId @ '' to '' @ quoted toTableId)
           in (if setsPrototype deleted toTableId then LeavesModel result else result, s3)))"

definition addColumn :: "Env \<Rightarrow> string \<Rightarrow> ColumnInput \<Rightarrow> AgentState \<Rightarrow> ToolResult \<times> AgentState" where
  "addColumn env tid column s =
     (if aborted s then (cancelled, s)
      else case js_get (schemaState s) tid of
        Missing \<Rightarrow> (tableNotFound tid, s)
      | InheritedFunction \<Rightarrow> (Threw DataCloneError, s\<lparr>operationCount := operationCount s + 1\<rparr>)
      | InheritedPrototype \<Rightarrow>
          (LeavesModel (AddColumnOk (''Added column '' @ quoted (title (normaliseColumn column))
                                      @ '' to '' @ quoted tid)
                          (title (normaliseColumn column)) 1),
           s\<lparr>operationCount := operationCount s + 1\<rparr>)
      | Own table \<Rightarrow>
          (let s1 = s\<lparr>operationCount := operationCount s + 1\<rparr>;
               beforeState = cloneTable (Some table);
               normalizedColumn = normaliseColumn column;
               existingColumns = columns table
           in if list_ex (\<lambda>c. title c = title normalizedColumn) existingColumns
              then (Rejected (''Column '' @ quoted (title normalizedColumn)
                                @ '' already exists in '' @ quoted tid), s1)
              else
                (let table' = table\<lparr>columns := existingColumns @ [normalizedColumn]\<rparr>;
                     s2 = s1\<lparr>schemaState := AList.update tid table' (schemaState s1)\<rparr>;
                     s3 = recordOperation env OpAddColumn tid beforeState (Some table')
                            (''Added column '' @ quoted (title normalizedColumn)
                               @ '' to '' @ quoted tid) s2
                 in (AddColumnOk (''Added column '' @ quoted (title normalizedColumn)
                                    @ '' to '' @ quoted tid)
                       (title normalizedColumn) (length (columns table')), s3))))"

definition dropColumn :: "Env \<Rightarrow> string \<Rightarrow> string \<Rightarrow> AgentState \<Rightarrow> ToolResult \<times> AgentState" where
  "dropColumn env tid columnName s =
     (if aborted s then (cancelled, s)
      else case js_get (schemaState s) tid of
        Missing \<Rightarrow> (tableNotFound tid, s)
      | InheritedFunction \<Rightarrow> (Threw DataCloneError, s\<lparr>operationCount := operationCount s + 1\<rparr>)
      | InheritedPrototype \<Rightarrow>
          (LeavesModel (Rejected (''Column '' @ quoted columnName @ '' not found in '' @ quoted tid)),
           s\<lparr>operationCount := operationCount s + 1\<rparr>)
      | Own table \<Rightarrow>
          (let s1 = s\<lparr>operationCount := operationCount s + 1\<rparr>;
               beforeState = cloneTable (Some table);
               originalLength = length (columns table);
               table' = table\<lparr>columns := filter (\<lambda>c. title c \<noteq> columnName) (columns table)\<rparr>;
               s2 = s1\<lparr>schemaState := AList.update tid table' (schemaState s1)\<rparr>
           in if length (columns table') = originalLength
              then (Rejected (''Column '' @ quoted columnName @ '' not found in '' @ quoted tid), s2)
              else
                (let s3 = recordOperation env OpDropColumn tid beforeState (Some table')
                            (''Dropped column '' @ quoted columnName @ '' from '' @ quoted tid) s2
                 in (DropColumnOk (''Dropped column '' @ quoted columnName @ '' from '' @ quoted tid)
                       (length (columns table')), s3))))"

record ColumnPatch =
  p_title :: "string option"
  p_type :: "string option"
  p_format :: "string option"
  p_default :: "jsvalue option"
  p_required :: "bool option"
  p_pk :: "bool option"
  p_fk :: "string option"
  p_enumValues :: "string list option"
  p_enumTypeName :: "string option"
  p_comment :: "string option"

text \<open>
  \<open>{...originalColumn, ...Object.fromEntries(Object.entries(patch).filter(([, v]) => v !== undefined))}\<close>:
  every field the patch defines replaces the column's.
\<close>

definition spreadPatch :: "Column \<Rightarrow> ColumnPatch \<Rightarrow> Column" where
  "spreadPatch c p =
     \<lparr>title = coalesce (p_title p) (title c),
      type = coalesce (p_type p) (type c),
      format = coalesce (p_format p) (format c),
      default = (case p_default p of None \<Rightarrow> default c | Some v \<Rightarrow> Some v),
      required = coalesce (p_required p) (required c),
      pk = coalesce (p_pk p) (pk c),
      fk = (case p_fk p of None \<Rightarrow> fk c | Some v \<Rightarrow> Some v),
      enumValues = (case p_enumValues p of None \<Rightarrow> enumValues c | Some v \<Rightarrow> Some v),
      enumTypeName = (case p_enumTypeName p of None \<Rightarrow> enumTypeName c | Some v \<Rightarrow> Some v),
      comment = (case p_comment p of None \<Rightarrow> comment c | Some v \<Rightarrow> Some v)\<rparr>"

text \<open>
  \<open>Object.keys(patch).filter(k => patch[k] !== undefined)\<close>, the keys taken in the order
  of the input schema.
\<close>

definition changedProps :: "ColumnPatch \<Rightarrow> string list" where
  "changedProps p =
     (if p_title p \<noteq> None then [''title''] else []) @
     (if p_type p \<noteq> None then [''type''] else []) @
     (if p_format p \<noteq> None then [''format''] else []) @
     (if p_default p \<noteq> None then [''default''] else []) @
     (if p_required p \<noteq> None then [''required''] else []) @
     (if p_pk p \<noteq> None then [''pk''] else []) @
     (if p_fk p \<noteq> None then [''fk''] else []) @
     (if p_enumValues p \<noteq> None then [''enumValues''] else []) @
     (if p_enumTypeName p \<noteq> None then [''enumTypeName''] else []) @
     (if p_comment p \<noteq> None then [''comment''] else [])"

definition alterColumn ::
    "Env \<Rightarrow> string \<Rightarrow> string \<Rightarrow> ColumnPatch \<Rightarrow> AgentState \<Rightarrow> ToolResult \<times> AgentState" where
  "alterColumn env tid columnName patch s =
     (if aborted s then (cancelled, s)
      else case js_get (schemaState s) tid of
        Missing \<Rightarrow> (tableNotFound tid, s)
      | InheritedFunction \<Rightarrow> (Threw DataCloneError, s\<lparr>operationCount := operationCount s + 1\<rparr>)
      | InheritedPrototype \<Rightarrow>
          (Rejected (''Column '' @ quoted columnName @ '' not found in '' @ quoted tid),
           s\<lparr>operationCount := operationCount s + 1\<rparr>)
      | Own table \<Rightarrow>
          (let s1 = s\<lparr>operationCount := operationCount s + 1\<rparr>;
               beforeState = cloneTable (Some table)
           in case findIndex (\<lambda>c. title c = columnName) (columns table) of
                None \<Rightarrow>
                  (Rejected (''Column '' @ quoted columnName @ '' not found in '' @ quoted tid), s1)
              | Some columnIndex \<Rightarrow>
                  (let originalColumn = columns table ! columnIndex;
                       merged = spreadPatch originalColumn patch;
                       updatedColumn =
                         (if truthy (p_type patch) \<or> truthy (p_format patch)
                          then merged\<lparr>type := coalesce (p_format patch)
                                                 (coalesce (p_type patch) (type originalColumn)),
                                       format := coalesce (p_type patch)
                                                   (coalesce (p_format patch) (format originalColumn))\<rparr>
                          else merged);
                       table' = table\<lparr>columns := (columns table)[columnIndex := updatedColumn]\<rparr>;
                       s2 = s1\<lparr>schemaState := AList.update tid table' (schemaState s1)\<rparr>;
                       s3 = recordOperation env OpAlterColumn tid beforeState (Some table')
                              (''Altered column '' @ quoted columnName @ '' in '' @ quoted tid) s2
                   in (AlterColumnOk (''Updated column '' @ quoted columnName @ '' in '' @ quoted tid)
                         (changedProps patch), s3))))"

definition getTableDetails :: "string \<Rightarrow> AgentState \<Rightarrow> ToolResult \<times> AgentState" where
  "getTableDetails tid s =
     (if aborted s then (cancelled, s)
      else case js_get (schemaState s) tid of
        Missing \<Rightarrow> (tableNotFound tid, s)
      | Own table \<Rightarrow> (TableDetailsOk table, s)
      | _ \<Rightarrow> (InheritedDetailsOk, s))"

definition listSchemas :: "bool option \<Rightarrow> AgentState \<Rightarrow> ToolResult \<times> AgentState" where
  "listSchemas includeSystemOpt s =
     (if aborted s then (cancelled, s)
      else
        (let includeSystem = coalesce includeSystemOpt False;
             schemas0 = foldl (\<lambda>schemas (key, table).
                          setAdd schemas
                            (coalesce (js_or (schema table)
                                         (js_or (js_index (js_split CHR ''.'' key) 0) (Some ''public'')))
                               ''public''))
                        [] (schemaState s);
             schemas = setAdd schemas0 ''public''
         in (SchemasResult
               (filter (\<lambda>sc. includeSystem \<or> sc \<notin> set [''pg_catalog'', ''information_schema''])
                  schemas)
               (length schemas), s)))"

definition listTables ::
    "string option \<Rightarrow> string option \<Rightarrow> bool option \<Rightarrow> nat option \<Rightarrow> nat option
      \<Rightarrow> AgentState \<Rightarrow> ToolResult \<times> AgentState" where
  "listTables schemaOpt search includeColumnsOpt limitOpt offsetOpt s =
     (if aborted s then (cancelled, s)
      else
        (let includeColumns = coalesce includeColumnsOpt False;
             limit = coalesce limitOpt 100;
             offset = coalesce offsetOpt 0;
             tableSchema = (\<lambda>key table.
               coalesce (js_or (schema table)
                           (if CHR ''.'' \<in> set key then js_index (js_split CHR ''.'' key) 0
                            else Some ''public''))
                 []);
             filtered = filter (\<lambda>(key, table).
                 \<not> (truthy schemaOpt \<and> Some (tableSchema key table) \<noteq> schemaOpt) \<and>
                 \<not> (truthy search \<and>
                      \<not> js_includes (toLowerCase (tableSchema key table @ ''.'' @ t_title table))
                           (toLowerCase (coalesce search []))))
               (schemaState s);
             sliced = take limit (drop offset filtered);
             total = length filtered;
             summaries = map (\<lambda>(key, table).
                 \<lparr>ts_id = key,
                   ts_schema = coalesce (js_or (schema table) (Some ''public'')) ''public'',
                   ts_title = t_title table,
                   ts_isView = is_view table,
                   ts_columnCount = length (columns table),
                   ts_columns = (if includeColumns then Some (columns table) else None)\<rparr>) sliced;
             s1 = (if total > 0 then s\<lparr>totalOperations := max (totalOperations s) total\<rparr> else s)
         in (TablesResult total summaries, s1)))"

text \<open>One tool invocation, and a request's sequence of events.\<close>

datatype ToolCall =
    ListSchemas "bool option"
  | ListTables "string option" "string option" "bool option" "nat option" "nat option"
  | GetTableDetails string
  | CreateTable string "ColumnInput list" "bool option"
  | DropTable string
  | RenameTable string string
  | AddColumn string ColumnInput
  | DropColumn string string
  | AlterColumn string string ColumnPatch

fun execute :: "Env \<Rightarrow> ToolCall \<Rightarrow> AgentState \<Rightarrow> ToolResult \<times> AgentState" where
  "execute env (ListSchemas includeSystem) s = listSchemas includeSystem s"
| "execute env (ListTables sc search includeColumns limit offset) s =
     listTables sc search includeColumns limit offset s"
| "execute env (GetTableDetails tid) s = getTableDetails tid s"
| "execute env (CreateTable tid cols isView) s = createTable env tid cols isView s"
| "execute env (DropTable tid) s = dropTable env tid s"
| "execute env (RenameTable fromTableId toTableId) s = renameTable env fromTableId toTableId s"
| "execute env (AddColumn tid column) s = addColumn env tid column s"
| "execute env (DropColumn tid columnName) s = dropColumn env tid columnName s"
| "execute env (AlterColumn tid columnName patch) s = alterColumn env tid columnName patch s"

text \<open>
  What happens to a request, in order: the model invokes a tool, or the client aborts
  (the listener calls \<open>abortController.abort()\<close>).
\<close>

datatype Event = Invoke Env ToolCall | Abort

fun runEvents :: "Event list \<Rightarrow> AgentState \<Rightarrow> ToolResult list \<times> AgentState" where
  "runEvents [] s = ([], s)"
| "runEvents (Abort # evs) s = runEvents evs (s\<lparr>aborted := True\<rparr>)"
| "runEvents (Invoke env call # evs) s =
     (let (r, s') = execute env call s;
          (rs, s'') = runEvents evs s'
      in (r # rs, s''))"

text \<open>The state a request starts from: \<open>cloneTables(body.schema)\<close>, nothing done yet.\<close>

definition initialState :: "TableState \<Rightarrow> AgentState" where
  "initialState tables =
     \<lparr>schemaState = tables, operationCount = 0, totalOperations = 0,
      operationHistory = [], aborted = False\<rparr>"

text \<open>How many tool invocations a sequence of events holds.\<close>

fun invocations :: "Event list \<Rightarrow> nat" where
  "invocations [] = 0"
| "invocations (Abort # evs) = invocations evs"
| "invocations (Invoke env call # evs) = Suc (invocations evs)"

section \<open>The legacy route: \<open>modifySchema\<close>\<close>

datatype LegacyOperation =
    create_table string "ColumnInput list" "bool option"
  | drop_table string
  | rename_table string string
  | add_column string ColumnInput
  | drop_column string string
  | alter_column string string ColumnPatch

datatype Status = StatusSuccess | StatusError

record OperationApplied =
  action :: string
  applied_tableId :: string
  detail :: string
  status :: Status

text \<open>
  The variables of one \<open>applySchemaOperations\<close> call: the request's \<open>schemaState\<close>, which
  the loop mutates, the \<open>ok\<close> flag and the \<open>operationsApplied\<close> list. \<open>l_leftModel\<close> is
  set by an operation that takes the program out of the states modelled here (it
  replaces the prototype of \<open>schemaState\<close>, adds a property to \<open>Object.prototype\<close> or to
  one of its functions, or stores an object that is not a table); the operations after
  it are not followed.
\<close>

record LegacyRun =
  l_schemaState :: TableState
  l_ok :: bool
  l_operationsApplied :: "OperationApplied list"
  l_leftModel :: bool

definition applied :: "string \<Rightarrow> string \<Rightarrow> string \<Rightarrow> Status \<Rightarrow> LegacyRun \<Rightarrow> LegacyRun" where
  "applied act tid det st r =
     r\<lparr>l_operationsApplied := l_operationsApplied r @
         [\<lparr>action = act, applied_tableId = tid, detail = det, status = st\<rparr>]\<rparr>"

definition failed :: "string \<Rightarrow> string \<Rightarrow> string \<Rightarrow> LegacyRun \<Rightarrow> LegacyRun" where
  "failed act tid det r = applied act tid det StatusError (r\<lparr>l_ok := False\<rparr>)"

text \<open>
  One turn of \<open>for (const operation of input.operations) switch (operation.action)\<close>.
  Nothing is cloned here, so nothing throws on a function found under the key:
  \<open>create_table\<close> reads \<open>existing?.position\<close> of it, which is \<open>undefined\<close>, and puts its
  table under the key; \<open>drop_table\<close> deletes no own property and reports success;
  \<open>drop_column\<close> and \<open>alter_column\<close> find no \<open>columns\<close> on it.
\<close>

fun applyOperation :: "LegacyOperation \<Rightarrow> LegacyRun \<Rightarrow> LegacyRun" where
  "applyOperation (create_table tid cols isView) r =
     (let schema' = fst (parseTableIdentifier tid);
          cols' = map normaliseColumn_legacy cols;
          existing = tableOf (js_get (l_schemaState r) tid);
          table = \<lparr>t_title = tid,
                   schema = schema',
                   is_view = coalesce isView False,
                   columns = cols',
                   position = (case existing of
                                 Some e \<Rightarrow> position e
                               | None \<Rightarrow> \<lparr>pos_x = 0, pos_y = 0\<rparr>)\<rparr>
      in applied ''create_table'' tid
           (''Created '' @ tid @ '' with '' @ js_number (length cols') @ '' column''
              @ (if length cols' = 1 then [] else ''s'') @ ''.'')
           StatusSuccess
           (if setsPrototype (l_schemaState r) tid then r\<lparr>l_leftModel := True\<rparr>
            else r\<lparr>l_schemaState := AList.update tid table (l_schemaState r)\<rparr>))"
| "applyOperation (drop_table tid) r =
     (case js_get (l_schemaState r) tid of
        Missing \<Rightarrow> failed ''drop_table'' tid (''Table '' @ tid @ '' not found.'') r
      | _ \<Rightarrow>
          applied ''drop_table'' tid (''Removed '' @ tid @ ''.'') StatusSuccess
            (r\<lparr>l_schemaState := AList.delete tid (l_schemaState r)\<rparr>))"
| "applyOperation (rename_table fromTableId toTableId) r =
     (case js_get (l_schemaState r) fromTableId of
        Missing \<Rightarrow> failed ''rename_table'' fromTableId (''Table '' @ fromTableId @ '' not found.'') r
      | Own source \<Rightarrow>
          (let schema' = fst (parseTableIdentifier toTableId);
               updated = source\<lparr>t_title := toTableId, schema := schema'\<rparr>;
               deleted = AList.delete fromTableId (l_schemaState r)
           in applied ''rename_table'' toTableId
                (''Renamed '' @ fromTableId @ '' to '' @ toTableId @ ''.'') StatusSuccess
                (if setsPrototype deleted toTableId
                 then r\<lparr>l_schemaState := deleted, l_leftModel := True\<rparr>
                 else r\<lparr>l_schemaState := AList.update toTableId updated deleted\<rparr>))
      | _ \<Rightarrow>
          applied ''rename_table'' toTableId
            (''Renamed '' @ fromTableId @ '' to '' @ toTableId @ ''.'') StatusSuccess
            (r\<lparr>l_leftModel := True\<rparr>))"
| "applyOperation (add_column tid col) r =
     (case js_get (l_schemaState r) tid of
        Missing \<Rightarrow> failed ''add_column'' tid (''Table '' @ tid @ '' not found.'') r
      | Own table \<Rightarrow>
          (let column = normaliseColumn_legacy col;
               existingColumns = columns table;
               table' = table\<lparr>columns := existingColumns @ [column]\<rparr>
           in applied ''add_column'' tid (''Added column '' @ title column @ ''.'') StatusSuccess
                (r\<lparr>l_schemaState := AList.update tid table' (l_schemaState r)\<rparr>))
      | _ \<Rightarrow>
          applied ''add_column'' tid
            (''Added column '' @ title (normaliseColumn_legacy col) @ ''.'') StatusSuccess
            (r\<lparr>l_leftModel := True\<rparr>))"
| "applyOperation (drop_column tid columnName) r =
     (case js_get (l_schemaState r) tid of
        Own table \<Rightarrow>
          (let nextColumns = filter (\<lambda>column. title column \<noteq> columnName) (columns table)
           in if length nextColumns = length (columns table)
              then failed ''drop_column'' tid (''Column '' @ columnName @ '' not found.'') r
              else applied ''drop_column'' tid (''Removed column '' @ columnName @ ''.'')
                     StatusSuccess
                     (r\<lparr>l_schemaState :=
                          AList.update tid (table\<lparr>columns := nextColumns\<rparr>) (l_schemaState r)\<rparr>))
      | _ \<Rightarrow> failed ''drop_column'' tid (''Column '' @ columnName @ '' not found.'') r)"
| "applyOperation (alter_column tid columnName patch) r =
     (case js_get (l_schemaState r) tid of
        Own table \<Rightarrow>
          (case findIndex (\<lambda>column. title column = columnName) (columns table) of
             None \<Rightarrow> failed ''alter_column'' tid (''Column '' @ columnName @ '' not found.'') r
           | Some columnIndex \<Rightarrow>
               (let originalColumn = columns table ! columnIndex;
                    u0 = spreadPatch originalColumn patch;
                    u1 = (if truthy (p_format patch) \<and> \<not> truthy (p_type patch)
                          then u0\<lparr>type := coalesce (p_format patch) []\<rparr> else u0);
                    updatedColumn =
                         (if truthy (p_type patch) \<and> \<not> truthy (p_format patch)
                          then u1\<lparr>format := coalesce (p_type patch) []\<rparr> else u1);
                    table' = table\<lparr>columns := (columns table)[columnIndex := updatedColumn]\<rparr>
                in applied ''alter_column'' tid (''Updated column '' @ columnName @ ''.'')
                     StatusSuccess
                     (r\<lparr>l_schemaState := AList.update tid table' (l_schemaState r)\<rparr>)))
      | _ \<Rightarrow> failed ''alter_column'' tid (''Table '' @ tid @ '' not found.'') r)"

definition applySchemaOperations :: "LegacyOperation list \<Rightarrow> TableState \<Rightarrow> LegacyRun" where
  "applySchemaOperations operations tables =
     foldl (\<lambda>r operation. if l_leftModel r then r else applyOperation operation r)
       \<lparr>l_schemaState = tables, l_ok = True, l_operationsApplied = [], l_leftModel = False\<rparr>
       operations"

section \<open>Example data\<close>

text \<open>An input column that gives its title only.\<close>

definition columnNamed :: "string \<Rightarrow> ColumnInput" where
  "columnNamed t =
     \<lparr>in_title = t, in_type = None, in_format = None, in_default = None, in_required = None,
      in_pk = None, in_fk = None, in_enumValues = None, in_enumTypeName = None,
      in_comment = None\<rparr>"

text \<open>The column of the system prompt's \<open>addColumn\<close> example.\<close>

definition emailInput :: ColumnInput where
  "emailInput = (columnNamed ''email'')\<lparr>in_type := Some ''string'', in_format := Some ''varchar''\<rparr>"

text \<open>The two \<open>createTable\<close> calls of the specification's scenario, from the empty schema.\<close>

definition usersColumns :: "ColumnInput list" where
  "usersColumns =
     [(columnNamed ''id'')\<lparr>in_type := Some ''uuid'', in_pk := Some True, in_required := Some True\<rparr>,
      (columnNamed ''email'')\<lparr>in_type := Some ''text'', in_required := Some True\<rparr>]"

definition postsColumns :: "ColumnInput list" where
  "postsColumns =
     [(columnNamed ''id'')\<lparr>in_type := Some ''uuid'', in_pk := Some True\<rparr>,
      (columnNamed ''user_id'')\<lparr>in_type := Some ''uuid'', in_fk := Some ''users.id''\<rparr>]"

definition env1 :: Env where
  "env1 = \<lparr>generatedId = ''op_1_a'', now = 1\<rparr>"

definition env2 :: Env where
  "env2 = \<lparr>generatedId = ''op_2_b'', now = 2\<rparr>"

definition env3 :: Env where
  "env3 = \<lparr>generatedId = ''op_3_c'', now = 3\<rparr>"

definition blogState :: AgentState where
  "blogState =
     snd (createTable env2 ''posts'' postsColumns None
       (snd (createTable env1 ''users'' usersColumns None (initialState []))))"

text \<open>The schema those two calls leave, written out.\<close>

definition usersTable :: Table where
  "usersTable =
     \<lparr>t_title = ''users'', schema = Some ''public'', is_view = False,
      columns =
        [\<lparr>title = ''id'', type = ''uuid'', format = ''uuid'', default = None, required = True,
          pk = True, fk = None, enumValues = None, enumTypeName = None, comment = None\<rparr>,
         \<lparr>title = ''email'', type = ''text'', format = ''text'', default = None, required = True,
          pk = False, fk = None, enumValues = None, enumTypeName = None, comment = None\<rparr>],
      position = \<lparr>pos_x = 100, pos_y = 100\<rparr>\<rparr>"

definition postsTable :: Table where
  "postsTable =
     \<lparr>t_title = ''posts'', schema = Some ''public'', is_view = False,
      columns =
        [\<lparr>title = ''id'', type = ''uuid'', format = ''uuid'', default = None, required = False,
          pk = True, fk = None, enumValues = None, enumTypeName = None, comment = None\<rparr>,
         \<lparr>title = ''user_id'', type = ''uuid'', format = ''uuid'', default = None,
          required = False, pk = False, fk = Some ''users.id'', enumValues = None,
          enumTypeName = None, comment = None\<rparr>],
      position = \<lparr>pos_x = 150, pos_y = 150\<rparr>\<rparr>"

definition blogSchema :: TableState where
  "blogSchema = [(''users'', usersTable), (''posts'', postsTable)]"

text \<open>The scenario's schema after the legacy route has added \<open>email\<close> to \<open>posts\<close> twice.\<close>

definition duplicatedSchema :: TableState where
  "duplicatedSchema =
     l_schemaState (applySchemaOperations
       [add_column ''posts'' emailInput, add_column ''posts'' emailInput] blogSchema)"

text \<open>
  The scenario after \<open>renameTable("users", "app_users")\<close>: \<open>posts.user_id\<close> still names
  \<open>users.id\<close>, and no table is called \<open>users\<close>.
\<close>

definition renamedState :: AgentState where
  "renamedState = snd (renameTable env3 ''users'' ''app_users'' blogState)"

text \<open>The scenario with \<open>users\<close> a view.\<close>

definition viewUsersSchema :: TableState where
  "viewUsersSchema = [(''users'', usersTable\<lparr>is_view := True\<rparr>), (''posts'', postsTable)]"

text \<open>The text exported for \<open>posts\<close> alone.\<close>

definition postsSQL :: string where
  "postsSQL =
     ''create table posts ('' @ [CHR 0x0A] @
     ''  id uuid primary key,'' @ [CHR 0x0A] @
     ''  user_id uuid references users (id)'' @ [CHR 0x0A] @
     '');'' @ [CHR 0x0A, CHR 0x0A]"

text \<open>
  Two requests that start with one table each: the table \<open>createTable\<close> makes for
  \<open>users\<close>, which is also the table it makes for \<open>public.users\<close>, under the one key and
  under the other.
\<close>

definition usersState :: AgentState where
  "usersState = initialState [(''users'', usersTable)]"

definition publicUsersState :: AgentState where
  "publicUsersState = initialState [(''public.users'', usersTable)]"

text \<open>Two tables that reference each other.\<close>

definition cyclicState :: AgentState where
  "cyclicState =
     snd (createTable env2 ''b''
            [(columnNamed ''id'')\<lparr>in_type := Some ''uuid'', in_pk := Some True\<rparr>,
             (columnNamed ''a_id'')\<lparr>in_type := Some ''uuid'', in_fk := Some ''a.id''\<rparr>] None
       (snd (createTable env1 ''a''
            [(columnNamed ''id'')\<lparr>in_type := Some ''uuid'', in_pk := Some True\<rparr>,
             (columnNamed ''b_id'')\<lparr>in_type := Some ''uuid'', in_fk := Some ''b.id''\<rparr>] None
          (initialState []))))"

text \<open>The scenario's schema with \<open>posts\<close> enumerated first, and the text exported for it.\<close>

definition reversedBlogSchema :: TableState where
  "reversedBlogSchema = [(''posts'', postsTable), (''users'', usersTable)]"

definition blogSQL :: string where
  "blogSQL =
     ''create table users ('' @ [CHR 0x0A] @
     ''  id uuid default uuid_generate_v4() primary key,'' @ [CHR 0x0A] @
     ''  email text not null'' @ [CHR 0x0A] @
     '');'' @ [CHR 0x0A, CHR 0x0A] @
     ''create table posts ('' @ [CHR 0x0A] @
     ''  id uuid primary key,'' @ [CHR 0x0A] @
     ''  user_id uuid references users (id)'' @ [CHR 0x0A] @
     '');'' @ [CHR 0x0A, CHR 0x0A]"

text \<open>
  A schema that meets every clause of the column rule: a reserved word, an integer
  primary key, a required foreign key, a timestamp, a date, and a view.
\<close>

definition plainColumn :: "string \<Rightarrow> string \<Rightarrow> Column" where
  "plainColumn t f =
     \<lparr>title = t, type = f, format = f, default = None, required = False, pk = False, fk = None,
      enumValues = None, enumTypeName = None, comment = None\<rparr>"

definition accountsTable :: Table where
  "accountsTable =
     \<lparr>t_title = ''accounts'', schema = Some ''public'', is_view = False,
      columns =
        [(plainColumn ''index'' ''integer'')\<lparr>required := True, pk := True\<rparr>,
         (plainColumn ''owner'' ''uuid'')\<lparr>required := True, fk := Some ''users.id''\<rparr>,
         (plainColumn ''created_at'' ''timestamptz'')\<lparr>required := True\<rparr>,
         plainColumn ''day'' ''date''],
      position = \<lparr>pos_x = 0, pos_y = 0\<rparr>\<rparr>"

definition activeUsersView :: Table where
  "activeUsersView =
     \<lparr>t_title = ''active_users'', schema = Some ''public'', is_view = True,
      columns = [plainColumn ''id'' ''uuid''],
      position = \<lparr>pos_x = 0, pos_y = 0\<rparr>\<rparr>"

definition accountsSchema :: TableState where
  "accountsSchema =
     [(''accounts'', accountsTable), (''active_users'', activeUsersView), (''users'', usersTable)]"

definition accountsSQL :: string where
  "accountsSQL =
     ''create table users ('' @ [CHR 0x0A] @
     ''  id uuid default uuid_generate_v4() primary key,'' @ [CHR 0x0A] @
     ''  email text not null'' @ [CHR 0x0A] @
     '');'' @ [CHR 0x0A, CHR 0x0A] @
     ''create table accounts ('' @ [CHR 0x0A] @
     ''  '' @ [CHR 0x22] @ ''index'' @ [CHR 0x22] @ '' serial not null primary key,'' @ [CHR 0x0A] @
     ''  owner uuid references users (id),'' @ [CHR 0x0A] @
     ''  created_at timestamptz default now() not null,'' @ [CHR 0x0A] @
     ''  day date default now()'' @ [CHR 0x0A] @
     '');'' @ [CHR 0x0A, CHR 0x0A]"

section \<open>Proofs: the ordering loop\<close>

lemma wellPlaced_snoc:
  assumes "wellPlaced deps out" "map_of deps key = Some d" "list_all (\<lambda>x. x \<in> set out) d"
  shows "wellPlaced deps (out @ [key])"
  unfolding wellPlaced_def
proof (intro allI impI)
  fix i d' assume i: "i < length (out @ [key])" and m: "map_of deps ((out @ [key]) ! i) = Some d'"
  show "set d' \<subseteq> set (take i (out @ [key]))"
  proof (cases "i < length out")
    case True
    then show ?thesis using assms(1) m by (auto simp: wellPlaced_def nth_append)
  next
    case False
    then have "i = length out" using i by simp
    then show ?thesis using m assms(2,3) by (auto simp: list_all_iff)
  qed
qed

lemma forIn_ConsE:
  assumes "forIn deps (i # is) (keys, out) = Inr res"
  obtains (skip) "\<not> i < length keys" "forIn deps is (keys, out) = Inr res"
  | (take) d where "i < length keys" "map_of deps (keys ! i) = Some d"
      "list_all (\<lambda>x. x \<in> set out) d"
      "forIn deps is (take i keys @ drop (Suc i) keys, out @ [keys ! i]) = Inr res"
  | (keep) d where "i < length keys" "map_of deps (keys ! i) = Some d"
      "\<not> list_all (\<lambda>x. x \<in> set out) d" "forIn deps is (keys, out) = Inr res"
proof (cases "i < length keys")
  case False
  then show ?thesis using assms skip by simp
next
  case True
  show ?thesis
  proof (cases "map_of deps (keys ! i)")
    case None
    then show ?thesis using assms True by simp
  next
    case (Some d)
    then show ?thesis using assms True take[of d] keep[of d]
      by (cases "list_all (\<lambda>x. x \<in> set out) d") simp_all
  qed
qed

lemma forIn_wellPlaced:
  "forIn deps is (keys, out) = Inr (keys', out') \<Longrightarrow> wellPlaced deps out \<Longrightarrow> wellPlaced deps out'"
proof (induction "is" arbitrary: keys out)
  case Nil
  then show ?case by simp
next
  case (Cons i "is")
  from Cons.prems(1) show ?case
  proof (cases rule: forIn_ConsE)
    case skip
    then show ?thesis using Cons.IH Cons.prems(2) by blast
  next
    case (take d)
    then show ?thesis using Cons.IH wellPlaced_snoc[OF Cons.prems(2)] by blast
  next
    case (keep d)
    then show ?thesis using Cons.IH Cons.prems(2) by blast
  qed
qed

lemma splice_mset: "i < length keys \<Longrightarrow> mset (take i keys @ drop (Suc i) keys) + {#keys ! i#} = mset keys"
proof -
  assume i: "i < length keys"
  have "mset keys = mset (take i keys @ keys ! i # drop (Suc i) keys)"
    by (rule arg_cong[where f=mset, OF id_take_nth_drop[OF i]])
  then show ?thesis by simp
qed

lemma forIn_mset:
  "forIn deps is (keys, out) = Inr (keys', out') \<Longrightarrow> mset keys' + mset out' = mset keys + mset out"
proof (induction "is" arbitrary: keys out)
  case Nil
  then show ?case by simp
next
  case (Cons i "is")
  from Cons.prems(1) show ?case
  proof (cases rule: forIn_ConsE)
    case skip
    then show ?thesis using Cons.IH by blast
  next
    case (take d)
    from Cons.IH[OF take(4)]
    have "mset keys' + mset out' = (mset (take i keys @ drop (Suc i) keys) + {#keys ! i#}) + mset out"
      by (simp add: ac_simps)
    then show ?thesis by (simp only: splice_mset[OF take(1)])
  next
    case (keep d)
    then show ?thesis using Cons.IH by blast
  qed
qed

lemma forIn_length:
  "forIn deps is (keys, out) = Inr (keys', out') \<Longrightarrow> length keys' \<le> length keys"
proof (induction "is" arbitrary: keys out)
  case Nil
  then show ?case by simp
next
  case (Cons i "is")
  from Cons.prems(1) show ?case
  proof (cases rule: forIn_ConsE)
    case skip
    then show ?thesis using Cons.IH by blast
  next
    case (take d)
    from Cons.IH[OF take(4)] show ?thesis using take(1) by simp
  next
    case (keep d)
    then show ?thesis using Cons.IH by blast
  qed
qed

lemma forIn_keys_subset:
  "forIn deps is (keys, out) = Inr (keys', out') \<Longrightarrow> set keys' \<subseteq> set keys"
proof (induction "is" arbitrary: keys out)
  case Nil
  then show ?case by simp
next
  case (Cons i "is")
  from Cons.prems(1) show ?case
  proof (cases rule: forIn_ConsE)
    case skip
    then show ?thesis using Cons.IH by blast
  next
    case (take d)
    have "set (take i keys) \<subseteq> set keys" "set (drop (Suc i) keys) \<subseteq> set keys"
      by (rule set_take_subset, rule set_drop_subset)
    with Cons.IH[OF take(4)] show ?thesis by auto
  next
    case (keep d)
    then show ?thesis using Cons.IH by blast
  qed
qed

lemma forIn_stuck:
  "forIn deps is (keys, out) = Inr (keys', out') \<Longrightarrow> length keys' = length keys \<Longrightarrow>
     keys' = keys \<and> out' = out \<and>
     (\<forall>i\<in>set is. i < length keys \<longrightarrow> (\<exists>d. map_of deps (keys ! i) = Some d \<and> \<not> list_all (\<lambda>x. x \<in> set out) d))"
proof (induction "is" arbitrary: keys out)
  case Nil
  then show ?case by simp
next
  case (Cons i "is")
  from Cons.prems(1) show ?case
  proof (cases rule: forIn_ConsE)
    case skip
    from Cons.IH[OF skip(2) Cons.prems(2)] skip(1) show ?thesis by simp
  next
    case (take d)
    from forIn_length[OF take(4)] have "length keys' < length keys" using take(1) by simp
    then show ?thesis using Cons.prems(2) by simp
  next
    case (keep d)
    from Cons.IH[OF keep(4) Cons.prems(2)] keep(2,3) show ?thesis by simp
  qed
qed

lemma forIn_total:
  "set keys \<subseteq> fst ` set deps \<Longrightarrow> \<exists>st'. forIn deps is (keys, out) = Inr st'"
proof (induction "is" arbitrary: keys out)
  case Nil
  then show ?case by simp
next
  case (Cons i "is")
  show ?case
  proof (cases "i < length keys")
    case False
    then show ?thesis using Cons.IH[OF Cons.prems] by simp
  next
    case True
    then have "keys ! i \<in> fst ` set deps" using Cons.prems by auto
    then have "keys ! i \<in> dom (map_of deps)" by (simp add: dom_map_of_conv_image_fst)
    then obtain d where d: "map_of deps (keys ! i) = Some d" by blast
    have "set (take i keys) \<subseteq> set keys" "set (drop (Suc i) keys) \<subseteq> set keys"
      by (rule set_take_subset, rule set_drop_subset)
    then have sub: "set (take i keys @ drop (Suc i) keys) \<subseteq> fst ` set deps"
      using Cons.prems by auto
    show ?thesis
    proof (cases "list_all (\<lambda>x. x \<in> set out) d")
      case True
      then show ?thesis using \<open>i < length keys\<close> d Cons.IH[OF sub] by simp
    next
      case False
      then show ?thesis using \<open>i < length keys\<close> d Cons.IH[OF Cons.prems] by simp
    qed
  qed
qed

lemma whileKeys_sound:
  assumes "whileKeys deps st = Some r"
  shows "\<forall>res. r = Inr res \<longrightarrow>
           (wellPlaced deps (snd st) \<longrightarrow> wellPlaced deps res) \<and> mset res = mset (fst st) + mset (snd st)"
  using assms
proof (induction deps st r rule: whileKeys.raw_induct[rotated, consumes 1])
  case (1 whileKeys' deps st r)
  show ?case
  proof (cases "fst st = []")
    case True
    then show ?thesis using 1(2) by auto
  next
    case False
    show ?thesis
    proof (cases "forIn deps [0..<length (fst st)] st")
      case (Inl e)
      then show ?thesis using 1(2) False by auto
    next
      case (Inr st')
      then have call: "whileKeys' deps st' = Some r" using 1(2) False by simp
      have f: "forIn deps [0..<length (fst st)] (fst st, snd st) = Inr (fst st', snd st')"
        using Inr by simp
      have ih: "\<forall>res. r = Inr res \<longrightarrow>
           (wellPlaced deps (snd st') \<longrightarrow> wellPlaced deps res) \<and> mset res = mset (fst st') + mset (snd st')"
        using 1(1) call by blast
      from ih forIn_wellPlaced[OF f] forIn_mset[OF f]
      show ?thesis by (auto simp: ac_simps)
    qed
  qed
qed

lemma forIn_progress:
  assumes wf: "wf ((edgesOf deps)\<inverse>)"
    and dom: "set keys \<subseteq> fst ` set deps"
    and closed: "\<forall>(k, x)\<in>edgesOf deps. k \<in> set keys \<longrightarrow> x \<in> set keys \<union> set out"
    and ne: "keys \<noteq> []"
    and run: "forIn deps [0..<length keys] (keys, out) = Inr (keys', out')"
  shows "length keys' < length keys"
proof (rule ccontr)
  assume "\<not> length keys' < length keys"
  with forIn_length[OF run] have eq: "length keys' = length keys" by simp
  from ne obtain k0 where "k0 \<in> set keys" by (cases keys) auto
  with wf obtain z where z: "z \<in> set keys" and zmin: "\<And>y. (y, z) \<in> (edgesOf deps)\<inverse> \<Longrightarrow> y \<notin> set keys"
    by (rule wfE_min) blast
  from z obtain i where i: "i < length keys" "keys ! i = z" by (auto simp: in_set_conv_nth)
  from i(1) have "i \<in> set [0..<length keys]" by simp
  with forIn_stuck[OF run eq] i(1) have "\<exists>d. map_of deps (keys ! i) = Some d \<and> \<not> list_all (\<lambda>x. x \<in> set out) d"
    by blast
  with i(2) obtain d where d: "map_of deps z = Some d"
    "\<not> list_all (\<lambda>x. x \<in> set out) d" by blast
  from d(2) obtain x where x: "x \<in> set d" "x \<notin> set out" by (auto simp: list_all_iff)
  from d(1) x(1) have e: "(z, x) \<in> edgesOf deps" by (auto simp: edgesOf_def)
  with closed z have "x \<in> set keys \<union> set out" by blast
  moreover from zmin[of x] e have "x \<notin> set keys" by simp
  ultimately show False using x(2) by simp
qed

lemma whileKeys_terminates:
  assumes wf: "wf ((edgesOf deps)\<inverse>)"
    and dom: "set keys \<subseteq> fst ` set deps"
    and closed: "\<forall>(k, x)\<in>edgesOf deps. k \<in> set keys \<longrightarrow> x \<in> set keys \<union> set out"
  shows "\<exists>res. whileKeys deps (keys, out) = Some (Inr res)"
  using dom closed
proof (induction "length keys" arbitrary: keys out rule: less_induct)
  case less
  show ?case
  proof (cases "keys = []")
    case True
    then show ?thesis by (simp add: whileKeys.simps)
  next
    case False
    from forIn_total[OF less.prems(1)] obtain keys' out'
      where run: "forIn deps [0..<length keys] (keys, out) = Inr (keys', out')" by (metis surj_pair)
    from forIn_progress[OF wf less.prems(1,2) False run] have lt: "length keys' < length keys" .
    from forIn_mset[OF run] have ms: "mset keys' + mset out' = mset keys + mset out" .
    then have sets: "set keys' \<union> set out' = set keys \<union> set out"
      by (metis set_mset_mset set_mset_union)
    have sub: "set keys' \<subseteq> set keys" by (rule forIn_keys_subset[OF run])
    have dom': "set keys' \<subseteq> fst ` set deps" using sub less.prems(1) by blast
    have closed': "\<forall>(k, x)\<in>edgesOf deps. k \<in> set keys' \<longrightarrow> x \<in> set keys' \<union> set out'"
      using less.prems(2) sub sets by blast
    from less.hyps[OF lt dom' closed'] obtain res where "whileKeys deps (keys', out') = Some (Inr res)" ..
    then show ?thesis using False run by (subst whileKeys.simps) simp
  qed
qed

section \<open>Proofs: the ordering of a schema\<close>

lemma js_split_nonempty: "js_split sep s \<noteq> []"
  by (induction s) (auto split: list.splits)

lemma js_split_first: "js_index (js_split sep s) 0 = Some (takeWhile (\<lambda>c. c \<noteq> sep) s)"
proof (induction s)
  case Nil
  show ?case by simp
next
  case (Cons c cs)
  then show ?case using js_split_nonempty[of sep cs]
    by (cases "js_split sep cs") auto
qed

lemma map_filter_fkTable: "List.map_filter fkTable cols = concat (map referencedTable cols)"
  by (induction cols)
     (auto simp: List.map_filter_simps fkTable_def referencedTable_def js_split_first split: option.splits)

lemma fst_dependencies: "map fst (dependencies tables) = map fst tables"
  by (induction tables) (auto simp: dependencies_def)

lemma map_of_dependencies:
  "map_of (dependencies tables) k = map_option (dependenciesOf k) (map_of tables k)"
  by (induction tables) (auto simp: dependencies_def)

lemma edgesOf_dependencies:
  assumes "distinct (map fst tables)"
  shows "edgesOf (dependencies tables) = set (fkEdges tables)"
proof -
  have "\<And>k r. (k, r) \<in> edgesOf (dependencies tables) \<longleftrightarrow> (k, r) \<in> set (fkEdges tables)"
  proof -
    fix k r
    have "(k, r) \<in> edgesOf (dependencies tables) \<longleftrightarrow>
          (\<exists>value. map_of tables k = Some value \<and> r \<in> set (dependenciesOf k value))"
      by (auto simp: edgesOf_def map_of_dependencies)
    also have "\<dots> \<longleftrightarrow> (\<exists>value. (k, value) \<in> set tables \<and> r \<in> set (dependenciesOf k value))"
      using assms by (simp add: map_of_eq_Some_iff)
    also have "\<dots> \<longleftrightarrow> (k, r) \<in> set (fkEdges tables)"
      by (fastforce simp: fkEdges_def dependenciesOf_def map_filter_fkTable)
    finally show "(k, r) \<in> edgesOf (dependencies tables) \<longleftrightarrow> (k, r) \<in> set (fkEdges tables)" .
  qed
  then show ?thesis by auto
qed

lemma wellPlaced_placedAfterTargets:
  assumes d: "distinct (map fst tables)" and dout: "distinct out"
    and wp: "wellPlaced (dependencies tables) out"
  shows "placedAfterTargets tables out"
  unfolding placedAfterTargets_def
proof (intro allI impI)
  fix i j assume i: "i < length out" and j: "j < length out"
    and e: "(out ! i, out ! j) \<in> set (fkEdges tables)"
  from e have "(out ! i, out ! j) \<in> edgesOf (dependencies tables)"
    by (simp add: edgesOf_dependencies[OF d])
  then obtain ds where ds: "map_of (dependencies tables) (out ! i) = Some ds" "out ! j \<in> set ds"
    by (auto simp: edgesOf_def)
  with wp i have "out ! j \<in> set (take i out)" by (auto simp: wellPlaced_def)
  then obtain j' where j': "j' < i" "j' < length out" "out ! j' = out ! j"
    using i by (auto simp: in_set_conv_nth)
  with dout j have "j' = j" by (simp add: nth_eq_iff_index_eq)
  with j' show "j < i" by simp
qed

lemma dependencyOrder_sound:
  assumes d: "distinct (map fst tables)" and r: "dependencyOrder tables = Some (Inr out)"
  shows "mset out = mset (map fst tables) \<and> distinct out \<and> placedAfterTargets tables out"
proof -
  from r have w: "whileKeys (dependencies tables) (map fst tables, []) = Some (Inr out)"
    by (simp add: dependencyOrder_def Let_def fst_dependencies)
  have wp0: "wellPlaced (dependencies tables) []" by (simp add: wellPlaced_def)
  from whileKeys_sound[OF w] wp0 have wp: "wellPlaced (dependencies tables) out"
    and ms: "mset out = mset (map fst tables)" by auto
  from ms d have dout: "distinct out" by (metis mset_eq_imp_distinct_iff)
  from wellPlaced_placedAfterTargets[OF d dout wp] ms dout show ?thesis by simp
qed

lemma dependencyOrder_terminates:
  assumes d: "distinct (map fst tables)" and ac: "acyclic (set (fkEdges tables))"
    and cl: "fkClosed tables"
  shows "\<exists>out. dependencyOrder tables = Some (Inr out)"
proof -
  let ?deps = "dependencies tables"
  have e: "edgesOf ?deps = set (fkEdges tables)" by (rule edgesOf_dependencies[OF d])
  have wf: "wf ((edgesOf ?deps)\<inverse>)"
    unfolding e using ac by (simp add: finite_acyclic_wf_converse)
  have dom: "set (map fst tables) \<subseteq> fst ` set ?deps"
    using fst_dependencies[of tables] by (metis set_map subset_refl)
  have closed: "\<forall>(k, r)\<in>edgesOf ?deps. k \<in> set (map fst tables) \<longrightarrow> r \<in> set (map fst tables) \<union> set []"
    unfolding e using cl by (auto simp: fkClosed_def list_all_iff)
  from whileKeys_terminates[OF wf dom closed] show ?thesis
    by (simp add: dependencyOrder_def Let_def fst_dependencies)
qed

section \<open>Proofs: the exported text\<close>

lemma js_split_second:
  "js_index (js_split sep s) (Suc 0) =
     (if sep \<in> set s then Some (takeWhile (\<lambda>c. c \<noteq> sep) (tl (dropWhile (\<lambda>c. c \<noteq> sep) s))) else None)"
proof (induction s)
  case Nil
  show ?case by simp
next
  case (Cons c cs)
  show ?case
  proof (cases "c = sep")
    case True
    then show ?thesis by (simp add: js_split_first)
  next
    case False
    then show ?thesis using Cons js_split_nonempty[of sep cs]
      by (cases "js_split sep cs") auto
  qed
qed

lemma reservedKeyword_set: "set reservedKeyword = reservedWords"
  by (auto simp: reservedKeyword_def reservedWords_def)

lemma if_append_both: "(if b then c @ u else c @ w) = c @ (if b then u else w)"
  by simp

lemma if_append_one: "(if b then c @ u else c) = c @ (if b then u else [])"
  by simp

lemma references_append:
  "(case fk v of None \<Rightarrow> c
    | Some s \<Rightarrow> if s \<noteq> []
        then c @ '' references '' @ js_template (js_index (js_split CHR ''.'' s) 0)
               @ '' ('' @ js_template (js_index (js_split CHR ''.'' s) 1) @ '')''
        else c) = c @ referencesText v"
  by (simp add: referencesText_def js_split_first js_split_second js_template_def
      fkTableName_def fkColumnName_def split: option.splits)

lemma required_append:
  "(if required v \<and> format v = ''uuid'' \<and> \<not> truthy (fk v)
    then c @ '' default uuid_generate_v4()''
    else if required v \<and> \<not> truthy (fk v) then c @ '' not null'' else c) = c @ requiredText v"
  unfolding requiredText_def by simp

lemma emitColumn_columnLine:
  "emitColumn code v i arr = code @ columnLine v (int i = int (length arr) - 1)"
  unfolding emitColumn_def Let_def references_append required_append
  unfolding columnLine_def identifierText_def typeText_def defaultNowText_def primaryKeyText_def
      reservedKeyword_set
  apply (simp split del: if_split add: if_append_one if_append_both)
  apply simp
  done

lemma foldl_emitColumn:
  "foldl (\<lambda>code (i, c). emitColumn code c i arr) code (enumerate n cs) =
     code @ concat (map (\<lambda>(i, c). columnLine c (int i = int (length arr) - 1)) (enumerate n cs))"
  by (induction cs arbitrary: code n) (simp_all add: emitColumn_columnLine)

lemma columnLines_enumerate:
  "concat (map (\<lambda>(i, c). columnLine c (int i = int (n + length cs) - 1)) (enumerate n cs)) = columnLines cs"
proof (induction cs arbitrary: n rule: columnLines.induct)
  case 1
  show ?case by simp
next
  case (2 c)
  show ?case by simp
next
  case (3 c c' cs)
  from 3[of "Suc n"] show ?case by simp
qed

lemma emitTable_text:
  "map_of tables v = Some t \<Longrightarrow> emitTable tables code v = Inr (code @ tableText tables v)"
  using columnLines_enumerate[of 0 "columns t"]
  by (simp add: emitTable_def tableText_def createTableText_def Let_def foldl_emitColumn)

lemma forEachOutput_text:
  "set out \<subseteq> fst ` set tables \<Longrightarrow> forEachOutput tables code out = Inr (code @ schemaSQL tables out)"
proof (induction out arbitrary: code)
  case Nil
  show ?case by (simp add: schemaSQL_def)
next
  case (Cons v vs)
  from Cons.prems have "v \<in> dom (map_of tables)" by (simp add: dom_map_of_conv_image_fst)
  then obtain t where t: "map_of tables v = Some t" by blast
  from Cons.prems have "set vs \<subseteq> fst ` set tables" by simp
  from Cons.IH[OF this] emitTable_text[OF t] show ?case by (simp add: schemaSQL_def)
qed

lemma exportedCode_text:
  assumes d: "distinct (map fst tables)" and r: "dependencyOrder tables = Some (Inr out)"
  shows "exportedCode tables = Some (Inr (schemaSQL tables out))"
proof -
  from dependencyOrder_sound[OF d r] have "mset out = mset (map fst tables)" by simp
  then have "set out = set (map fst tables)" by (metis set_mset_mset)
  then have "set out \<subseteq> fst ` set tables" by simp
  from forEachOutput_text[OF this, of "[]"] r show ?thesis by (simp add: exportedCode_def)
qed

section \<open>Proofs: the example data\<close>

lemma blogState_schema: "schemaState blogState = blogSchema"
  by code_simp

lemma blogState_not_aborted: "\<not> aborted blogState"
  by code_simp

section \<open>Proofs: the agent tools\<close>

lemma title_normaliseColumn: "title (normaliseColumn col) = in_title col"
  by (simp add: normaliseColumn_def Let_def)

lemma ok_cancelled: "ok cancelled = Some False"
  by (simp add: cancelled_def)

lemma ok_tableNotFound: "ok (tableNotFound tid) = Some False"
  by (simp add: tableNotFound_def)

lemma js_get_own [simp]: "map_of tables key = Some t \<Longrightarrow> js_get tables key = Own t"
  by (simp add: js_get_def)


lemma js_get_Own: "js_get tables key = Own t \<longleftrightarrow> map_of tables key = Some t"
  by (simp add: js_get_def split: option.splits)

lemma tableOf_simps [simp]:
  "tableOf Missing = None" "tableOf (Own t) = Some t"
  "tableOf InheritedFunction = None" "tableOf InheritedPrototype = None"
  by (simp_all add: tableOf_def)

lemma setsPrototype_other [simp]: "key \<noteq> ''__proto__'' \<Longrightarrow> \<not> setsPrototype tables key"
  by (simp add: setsPrototype_def)

lemma addColumn_absent:
  "js_get (schemaState s) tid = Missing \<Longrightarrow>
     ok (fst (addColumn env tid column s)) = Some False \<and> snd (addColumn env tid column s) = s"
  by (simp add: addColumn_def ok_cancelled ok_tableNotFound)

lemma addColumn_fresh:
  assumes "\<not> aborted s" "map_of (schemaState s) tid = Some table"
    "\<not> list_ex (\<lambda>c. title c = in_title column) (columns table)"
  shows "ok (fst (addColumn env tid column s)) = Some True"
    and "schemaState (snd (addColumn env tid column s)) =
           AList.update tid (table\<lparr>columns := columns table @ [normaliseColumn column]\<rparr>) (schemaState s)"
    and "aborted (snd (addColumn env tid column s)) = aborted s"
  using assms by (simp_all add: addColumn_def Let_def title_normaliseColumn recordOperation_def)

lemma addColumn_duplicate:
  assumes "\<not> aborted s" "map_of (schemaState s) tid = Some table"
    "list_ex (\<lambda>c. title c = in_title column) (columns table)"
  shows "ok (fst (addColumn env tid column s)) = Some False"
    and "schemaState (snd (addColumn env tid column s)) = schemaState s"
  using assms by (simp_all add: addColumn_def Let_def title_normaliseColumn)

lemma execute_aborted: "aborted s \<Longrightarrow> execute env call s = (cancelled, s)"
  by (cases call)
     (simp_all add: listSchemas_def listTables_def getTableDetails_def createTable_def
        dropTable_def renameTable_def addColumn_def dropColumn_def alterColumn_def)

lemma runEvents_aborted:
  "aborted s \<Longrightarrow> runEvents evs s = (replicate (invocations evs) cancelled, s)"
proof (induction evs arbitrary: s)
  case Nil
  show ?case by simp
next
  case (Cons e evs)
  show ?case
  proof (cases e)
    case (Invoke env call)
    then show ?thesis using Cons by (simp add: execute_aborted)
  next
    case Abort
    from Cons.prems have "s\<lparr>aborted := True\<rparr> = s" by simp
    with Abort Cons show ?thesis by simp
  qed
qed

lemma runEvents_append:
  "runEvents (evs1 @ evs2) s =
     (fst (runEvents evs1 s) @ fst (runEvents evs2 (snd (runEvents evs1 s))),
      snd (runEvents evs2 (snd (runEvents evs1 s))))"
proof (induction evs1 arbitrary: s)
  case Nil
  show ?case by simp
next
  case (Cons e evs)
  show ?case
  proof (cases e)
    case (Invoke env call)
    then show ?thesis using Cons[of "snd (execute env call s)"]
      by (simp add: case_prod_beta Let_def)
  next
    case Abort
    then show ?thesis using Cons[of "s\<lparr>aborted := True\<rparr>"] by simp
  qed
qed

lemma filter_length_eq_iff:
  "length (filter P xs) = length xs \<longleftrightarrow> \<not> list_ex (\<lambda>x. \<not> P x) xs"
proof
  assume "length (filter P xs) = length xs"
  then have "filter P xs = xs" by (metis length_filter_less less_irrefl filter_True)
  then show "\<not> list_ex (\<lambda>x. \<not> P x) xs" by (simp add: filter_id_conv list_ex_iff)
next
  assume "\<not> list_ex (\<lambda>x. \<not> P x) xs"
  then have "filter P xs = xs" by (simp add: filter_id_conv list_ex_iff)
  then show "length (filter P xs) = length xs" by simp
qed

lemma dropColumn_present:
  assumes "\<not> aborted s" "map_of (schemaState s) tid = Some table"
  shows "schemaState (snd (dropColumn env tid columnName s)) =
           AList.update tid (table\<lparr>columns := filter (\<lambda>c. title c \<noteq> columnName) (columns table)\<rparr>)
             (schemaState s)"
    and "ok (fst (dropColumn env tid columnName s)) =
           Some (list_ex (\<lambda>c. title c = columnName) (columns table))"
  using assms by (simp_all add: dropColumn_def Let_def recordOperation_def filter_length_eq_iff)

lemma dropColumn_no_match:
  assumes "\<not> aborted s" "map_of (schemaState s) tid = Some table"
    "\<not> list_ex (\<lambda>c. title c = columnName) (columns table)"
  shows "schemaState (snd (dropColumn env tid columnName s)) = schemaState s"
proof -
  from assms(3) have "filter (\<lambda>c. title c \<noteq> columnName) (columns table) = columns table"
    by (simp add: filter_id_conv list_ex_iff)
  then show ?thesis using dropColumn_present(1)[OF assms(1,2)] assms(2)
    by (simp add: update_triv)
qed

lemma applySchemaOperations_add_twice:
  assumes "map_of tables tid = Some table"
  shows "map_of (l_schemaState (applySchemaOperations [add_column tid col, add_column tid col] tables)) tid =
           Some (table\<lparr>columns := columns table @ [normaliseColumn_legacy col, normaliseColumn_legacy col]\<rparr>)"
    and "l_ok (applySchemaOperations [add_column tid col, add_column tid col] tables)"
  using assms by (simp_all add: applySchemaOperations_def applied_def Let_def update_conv')

lemma applySchemaOperations_drop_column:
  assumes "map_of tables tid = Some table"
  shows "map_of (l_schemaState (applySchemaOperations [drop_column tid columnName] tables)) tid =
           Some (table\<lparr>columns := filter (\<lambda>c. title c \<noteq> columnName) (columns table)\<rparr>)"
    and "l_ok (applySchemaOperations [drop_column tid columnName] tables) =
           list_ex (\<lambda>c. title c = columnName) (columns table)"
proof -
  show "l_ok (applySchemaOperations [drop_column tid columnName] tables) =
           list_ex (\<lambda>c. title c = columnName) (columns table)"
    using assms
    by (simp add: applySchemaOperations_def applied_def failed_def Let_def filter_length_eq_iff)
  show "map_of (l_schemaState (applySchemaOperations [drop_column tid columnName] tables)) tid =
           Some (table\<lparr>columns := filter (\<lambda>c. title c \<noteq> columnName) (columns table)\<rparr>)"
  proof (cases "list_ex (\<lambda>c. title c = columnName) (columns table)")
    case True
    then show ?thesis using assms
      by (simp add: applySchemaOperations_def applied_def failed_def Let_def filter_length_eq_iff update_conv')
  next
    case False
    then have "filter (\<lambda>c. title c \<noteq> columnName) (columns table) = columns table"
      by (simp add: filter_id_conv list_ex_iff)
    then show ?thesis using assms False
      by (simp add: applySchemaOperations_def applied_def failed_def Let_def filter_length_eq_iff)
  qed
qed

section \<open>Column normalisation (claim C9)\<close>

text \<open>
  Claim C9. Column normalisation resolves the type/format pair per call site. On the
  agent-tool path, when both are supplied the input's \<open>format\<close> becomes \<open>Column.type\<close>
  (and the input's \<open>type\<close> becomes \<open>Column.format\<close>), and with neither supplied both are
  the literal \<open>text\<close>. On the legacy \<open>modifySchema\<close> path \<open>Column.type\<close> is the input's
  \<open>type\<close> and \<open>Column.format\<close> its \<open>format\<close>, and the literal is \<open>string\<close>. When only one
  of the two is supplied, both fields are set to it, on either path. On both paths
  \<open>required\<close> and \<open>pk\<close> default to \<open>false\<close>, and \<open>fk\<close>, \<open>enumValues\<close> and \<open>comment\<close> pass
  through as they are.
\<close>

theorem normaliseColumn_type_format:
  "type (normaliseColumn (col\<lparr>in_type := Some t, in_format := Some f\<rparr>)) = f
   \<and> format (normaliseColumn (col\<lparr>in_type := Some t, in_format := Some f\<rparr>)) = t
   \<and> type (normaliseColumn (col\<lparr>in_type := None, in_format := None\<rparr>)) = ''text''
   \<and> format (normaliseColumn (col\<lparr>in_type := None, in_format := None\<rparr>)) = ''text''
   \<and> type (normaliseColumn_legacy (col\<lparr>in_type := Some t, in_format := Some f\<rparr>)) = t
   \<and> format (normaliseColumn_legacy (col\<lparr>in_type := Some t, in_format := Some f\<rparr>)) = f
   \<and> type (normaliseColumn_legacy (col\<lparr>in_type := None, in_format := None\<rparr>)) = ''string''
   \<and> format (normaliseColumn_legacy (col\<lparr>in_type := None, in_format := None\<rparr>)) = ''string''
   \<and> type (normaliseColumn (col\<lparr>in_type := Some t, in_format := None\<rparr>)) = t
   \<and> format (normaliseColumn (col\<lparr>in_type := Some t, in_format := None\<rparr>)) = t
   \<and> type (normaliseColumn (col\<lparr>in_type := None, in_format := Some f\<rparr>)) = f
   \<and> format (normaliseColumn (col\<lparr>in_type := None, in_format := Some f\<rparr>)) = f
   \<and> type (normaliseColumn_legacy (col\<lparr>in_type := Some t, in_format := None\<rparr>)) = t
   \<and> format (normaliseColumn_legacy (col\<lparr>in_type := Some t, in_format := None\<rparr>)) = t
   \<and> type (normaliseColumn_legacy (col\<lparr>in_type := None, in_format := Some f\<rparr>)) = f
   \<and> format (normaliseColumn_legacy (col\<lparr>in_type := None, in_format := Some f\<rparr>)) = f
   \<and> required (normaliseColumn (col\<lparr>in_required := None\<rparr>)) = False
   \<and> required (normaliseColumn (col\<lparr>in_required := Some b\<rparr>)) = b
   \<and> pk (normaliseColumn (col\<lparr>in_pk := None\<rparr>)) = False
   \<and> pk (normaliseColumn (col\<lparr>in_pk := Some b\<rparr>)) = b
   \<and> required (normaliseColumn_legacy (col\<lparr>in_required := None\<rparr>)) = False
   \<and> required (normaliseColumn_legacy (col\<lparr>in_required := Some b\<rparr>)) = b
   \<and> pk (normaliseColumn_legacy (col\<lparr>in_pk := None\<rparr>)) = False
   \<and> pk (normaliseColumn_legacy (col\<lparr>in_pk := Some b\<rparr>)) = b
   \<and> fk (normaliseColumn col) = in_fk col
   \<and> enumValues (normaliseColumn col) = in_enumValues col
   \<and> comment (normaliseColumn col) = in_comment col
   \<and> fk (normaliseColumn_legacy col) = in_fk col
   \<and> enumValues (normaliseColumn_legacy col) = in_enumValues col
   \<and> comment (normaliseColumn_legacy col) = in_comment col"
  by (simp add: normaliseColumn_def normaliseColumn_legacy_def coalesce_def Let_def)

text \<open>
  The system prompt's column \<open>{title: "email", type: "string", format: "varchar"}\<close>: the
  agent path stores type \<open>varchar\<close> and format \<open>string\<close>, the legacy path the reverse.
\<close>

theorem normaliseColumn_type_format_witness:
  "type (normaliseColumn emailInput) = ''varchar''
   \<and> format (normaliseColumn emailInput) = ''string''
   \<and> type (normaliseColumn_legacy emailInput) = ''string''
   \<and> format (normaliseColumn_legacy emailInput) = ''varchar''
   \<and> type (normaliseColumn (columnNamed ''email'')) = ''text''
   \<and> type (normaliseColumn_legacy (columnNamed ''email'')) = ''string''
   \<and> required (normaliseColumn emailInput) = False
   \<and> fk (normaliseColumn emailInput) = None"
  using normaliseColumn_type_format [where col = emailInput and t = "''string''" and f = "''varchar''"
      and b = True]
    normaliseColumn_type_format [where col = "columnNamed ''email''" and t = "''string''"
      and f = "''varchar''" and b = True]
  by (simp add: emailInput_def columnNamed_def)

section \<open>Adding a column twice (claim C4)\<close>

text \<open>
  Claim C4 names two places: the agent tool \<open>addColumn\<close> and the \<open>add_column\<close> action of
  the legacy route. On the scenario's \<open>posts\<close> table the agent tool does what the claim
  says: the first \<open>addColumn\<close> of \<open>email\<close> succeeds, the second is refused and the table
  keeps its three columns. The legacy action has no test for a column of the same
  title: both \<open>add_column\<close> operations report success, \<open>ok\<close> stays true and the table
  ends with four columns, two of them \<open>email\<close>. And with no table under the key, the
  agent tool answers \<open>ok: false\<close> only when the key is not the name of a member of
  \<open>Object.prototype\<close>: \<open>addColumn("toString", \<dots>)\<close> passes the test for the table, counts
  the operation and throws.
\<close>

theorem add_column_twice_accepted:
  "map_of blogSchema ''posts'' = Some postsTable
   \<and> map title (columns postsTable) = [''id'', ''user_id'']
   \<and> l_ok (applySchemaOperations
             [add_column ''posts'' emailInput, add_column ''posts'' emailInput] blogSchema)
   \<and> map status (l_operationsApplied (applySchemaOperations
             [add_column ''posts'' emailInput, add_column ''posts'' emailInput] blogSchema)) =
       [StatusSuccess, StatusSuccess]
   \<and> map_option (\<lambda>t. map title (columns t))
         (map_of (l_schemaState (applySchemaOperations
             [add_column ''posts'' emailInput, add_column ''posts'' emailInput] blogSchema)) ''posts'') =
       Some [''id'', ''user_id'', ''email'', ''email'']
   \<and> schemaState blogState = blogSchema
   \<and> ok (fst (addColumn env3 ''posts'' emailInput blogState)) = Some True
   \<and> ok (fst (addColumn env3 ''posts'' emailInput
                (snd (addColumn env3 ''posts'' emailInput blogState)))) = Some False
   \<and> map_option (\<lambda>t. map title (columns t))
         (map_of (schemaState (snd (addColumn env3 ''posts'' emailInput
                (snd (addColumn env3 ''posts'' emailInput blogState))))) ''posts'') =
       Some [''id'', ''user_id'', ''email'']
   \<and> map_of (schemaState blogState) ''toString'' = None
   \<and> fst (addColumn env3 ''toString'' emailInput blogState) = Threw DataCloneError
   \<and> operationCount (snd (addColumn env3 ''toString'' emailInput blogState)) =
       operationCount blogState + 1"
  by code_simp

section \<open>Cancellation (claim C5)\<close>

text \<open>
  Claim C5. Once the abort flag is set, every tool invocation (\<open>listSchemas\<close>,
  \<open>listTables\<close>, \<open>getTableDetails\<close>, \<open>createTable\<close>, \<open>dropTable\<close>, \<open>renameTable\<close>,
  \<open>addColumn\<close>, \<open>dropColumn\<close>, \<open>alterColumn\<close>) returns
  \<open>{ok: false, message: "Operation cancelled"}\<close> and leaves the whole state as it is.
  So for any events before the abort and any events after it, the state at the end is
  the state at the abort, and every invocation after the abort is answered with the
  cancellation: no table, column or column field changes after the abort.
\<close>

theorem cancellation_safety:
  "(aborted s \<longrightarrow> execute env call s = (Rejected ''Operation cancelled'', s))
   \<and> runEvents (earlier @ Abort # later) start =
       (fst (runEvents earlier start) @ replicate (invocations later) (Rejected ''Operation cancelled''),
        (snd (runEvents earlier start))\<lparr>aborted := True\<rparr>)"
proof -
  have a: "aborted ((snd (runEvents earlier start))\<lparr>aborted := True\<rparr>)" by simp
  have "runEvents (Abort # later) (snd (runEvents earlier start)) =
      (replicate (invocations later) cancelled, (snd (runEvents earlier start))\<lparr>aborted := True\<rparr>)"
    using runEvents_aborted[OF a, of later] by simp
  then show ?thesis using execute_aborted[of s env call]
    by (simp add: runEvents_append cancelled_def)
qed

text \<open>
  On the scenario: after an abort, \<open>dropTable users\<close> and \<open>addColumn\<close> are both refused
  and the schema is still the scenario's.
\<close>

theorem cancellation_safety_witness:
  "aborted (blogState\<lparr>aborted := True\<rparr>)
   \<and> execute env3 (DropTable ''users'') (blogState\<lparr>aborted := True\<rparr>) =
       (Rejected ''Operation cancelled'', blogState\<lparr>aborted := True\<rparr>)
   \<and> runEvents [Abort, Invoke env3 (DropTable ''users''), Invoke env3 (AddColumn ''posts'' emailInput)]
        blogState =
       ([Rejected ''Operation cancelled'', Rejected ''Operation cancelled''],
        blogState\<lparr>aborted := True\<rparr>)
   \<and> schemaState (blogState\<lparr>aborted := True\<rparr>) = blogSchema"
proof -
  have h: "aborted (blogState\<lparr>aborted := True\<rparr>)" by simp
  have n: "replicate (invocations [Invoke env3 (DropTable ''users''),
              Invoke env3 (AddColumn ''posts'' emailInput)]) (Rejected ''Operation cancelled'') =
           [Rejected ''Operation cancelled'', Rejected ''Operation cancelled'']"
    by simp
  note c = cancellation_safety [where s = "blogState\<lparr>aborted := True\<rparr>" and env = env3
      and call = "DropTable ''users''" and earlier = "[]" and start = blogState
      and later = "[Invoke env3 (DropTable ''users''), Invoke env3 (AddColumn ''posts'' emailInput)]"]
  from c h have e: "execute env3 (DropTable ''users'') (blogState\<lparr>aborted := True\<rparr>) =
       (Rejected ''Operation cancelled'', blogState\<lparr>aborted := True\<rparr>)"
    by blast
  from c n have r: "runEvents [Abort, Invoke env3 (DropTable ''users''),
        Invoke env3 (AddColumn ''posts'' emailInput)] blogState =
       ([Rejected ''Operation cancelled'', Rejected ''Operation cancelled''],
        blogState\<lparr>aborted := True\<rparr>)"
    by (simp del: runEvents.simps(2,3) invocations.simps)
  show ?thesis using h e r by (simp del: runEvents.simps execute.simps add: blogState_schema)
qed

section \<open>Proofs: renaming and dropping\<close>

lemma duplicatedSchema_posts:
  "map_of duplicatedSchema ''posts'' =
     Some (postsTable\<lparr>columns := columns postsTable @
        [normaliseColumn_legacy emailInput, normaliseColumn_legacy emailInput]\<rparr>)"
  unfolding duplicatedSchema_def
  by (rule applySchemaOperations_add_twice(1)) (simp add: blogSchema_def)





section \<open>Dropping a column (claim C10)\<close>

text \<open>
  Claim C10. One \<open>dropColumn(tableId, columnName)\<close> call removes every column of the
  table whose title is \<open>columnName\<close>, not the first one only. The legacy \<open>add_column\<close>
  action appends without looking for a column of the same title, so two of them leave
  the table with the column twice (and \<open>ok\<close> true); one \<open>dropColumn\<close>, or one legacy
  \<open>drop_column\<close>, then removes all of them. With the table present, \<open>dropColumn\<close>
  returns \<open>ok: false\<close> exactly when no column has that title, and the schema is then
  unchanged.
\<close>

theorem dropColumn_removes_every_match:
  assumes "\<not> aborted s" and "map_of (schemaState s) tid = Some table"
  shows "map_of (schemaState (snd (dropColumn env tid columnName s))) tid =
           Some (table\<lparr>columns := filter (\<lambda>c. title c \<noteq> columnName) (columns table)\<rparr>)
     \<and> ok (fst (dropColumn env tid columnName s)) =
           Some (list_ex (\<lambda>c. title c = columnName) (columns table))
     \<and> (\<not> list_ex (\<lambda>c. title c = columnName) (columns table) \<longrightarrow>
           schemaState (snd (dropColumn env tid columnName s)) = schemaState s)
     \<and> map_of (l_schemaState (applySchemaOperations [add_column tid col, add_column tid col]
           (schemaState s))) tid =
           Some (table\<lparr>columns := columns table @ [normaliseColumn_legacy col, normaliseColumn_legacy col]\<rparr>)
     \<and> l_ok (applySchemaOperations [add_column tid col, add_column tid col] (schemaState s))
     \<and> map_of (l_schemaState (applySchemaOperations [drop_column tid columnName] (schemaState s))) tid =
           Some (table\<lparr>columns := filter (\<lambda>c. title c \<noteq> columnName) (columns table)\<rparr>)
     \<and> l_ok (applySchemaOperations [drop_column tid columnName] (schemaState s)) =
           list_ex (\<lambda>c. title c = columnName) (columns table)"
  using dropColumn_present [OF assms, of env columnName] dropColumn_no_match [OF assms, of columnName env]
    applySchemaOperations_add_twice [OF assms(2), of col]
    applySchemaOperations_drop_column [OF assms(2), of columnName]
  by (simp add: update_conv')

text \<open>
  The legacy route adds \<open>email\<close> to \<open>posts\<close> twice; one \<open>dropColumn\<close> of the agent route
  removes both. \<open>dropColumn("users", "nonexistent")\<close> is refused and changes nothing.
\<close>

theorem dropColumn_removes_every_match_witness:
  "\<not> aborted (initialState duplicatedSchema)
   \<and> map_of duplicatedSchema ''posts'' =
       Some (postsTable\<lparr>columns := columns postsTable @
          [normaliseColumn_legacy emailInput, normaliseColumn_legacy emailInput]\<rparr>)
   \<and> length (columns postsTable @
          [normaliseColumn_legacy emailInput, normaliseColumn_legacy emailInput]) = 4
   \<and> length (filter (\<lambda>c. title c = ''email'') (columns postsTable @
          [normaliseColumn_legacy emailInput, normaliseColumn_legacy emailInput])) = 2
   \<and> ok (fst (dropColumn env3 ''posts'' ''email'' (initialState duplicatedSchema))) = Some True
   \<and> map_of (schemaState (snd (dropColumn env3 ''posts'' ''email'' (initialState duplicatedSchema))))
        ''posts'' = Some postsTable
   \<and> ok (fst (dropColumn env3 ''users'' ''nonexistent'' blogState)) = Some False
   \<and> schemaState (snd (dropColumn env3 ''users'' ''nonexistent'' blogState)) = schemaState blogState"
proof -
  let ?t = "postsTable\<lparr>columns := columns postsTable @
        [normaliseColumn_legacy emailInput, normaliseColumn_legacy emailInput]\<rparr>"
  have h1: "\<not> aborted (initialState duplicatedSchema)" by (simp add: initialState_def)
  have h2: "map_of (schemaState (initialState duplicatedSchema)) ''posts'' = Some ?t"
    by (simp add: initialState_def duplicatedSchema_posts)
  have t: "title (normaliseColumn_legacy emailInput) = ''email''"
    by (simp add: normaliseColumn_legacy_def emailInput_def columnNamed_def Let_def)
  have f: "?t\<lparr>columns := filter (\<lambda>c. title c \<noteq> ''email'') (columns ?t)\<rparr> = postsTable"
    by (simp add: t) (simp add: postsTable_def)
  have e: "list_ex (\<lambda>c. title c = ''email'') (columns ?t)" by (simp add: t)
  have n: "length (columns postsTable @
          [normaliseColumn_legacy emailInput, normaliseColumn_legacy emailInput]) = 4"
    "length (filter (\<lambda>c. title c = ''email'') (columns postsTable @
          [normaliseColumn_legacy emailInput, normaliseColumn_legacy emailInput])) = 2"
    by (simp_all add: t) (simp_all add: postsTable_def)
  have g1: "\<not> aborted blogState" by (rule blogState_not_aborted)
  have g2: "map_of (schemaState blogState) ''users'' = Some usersTable"
    by (simp add: blogState_schema blogSchema_def)
  have g3: "\<not> list_ex (\<lambda>c. title c = ''nonexistent'') (columns usersTable)"
    by (simp add: usersTable_def)
  from dropColumn_removes_every_match [OF h1 h2, of env3 "''email''" emailInput] e f
  have a: "ok (fst (dropColumn env3 ''posts'' ''email'' (initialState duplicatedSchema))) = Some True"
    "map_of (schemaState (snd (dropColumn env3 ''posts'' ''email'' (initialState duplicatedSchema))))
        ''posts'' = Some postsTable"
    by simp_all
  from dropColumn_removes_every_match [OF g1 g2, of env3 "''nonexistent''" emailInput] g3
  have b: "ok (fst (dropColumn env3 ''users'' ''nonexistent'' blogState)) = Some False"
    "schemaState (snd (dropColumn env3 ''users'' ''nonexistent'' blogState)) = schemaState blogState"
    by simp_all
  show ?thesis using h1 n a b by (simp add: duplicatedSchema_posts)
qed

section \<open>Renaming a table (claim C6)\<close>




section \<open>Proofs: when the ordering returns\<close>

lemma whileKeys_no_error:
  assumes "whileKeys deps st = Some r"
  shows "set (fst st) \<subseteq> fst ` set deps \<longrightarrow> (\<forall>e. r \<noteq> Inl e)"
  using assms
proof (induction deps st r rule: whileKeys.raw_induct[rotated, consumes 1])
  case (1 whileKeys' deps st r)
  show ?case
  proof (intro impI)
    assume dom: "set (fst st) \<subseteq> fst ` set deps"
    show "\<forall>e. r \<noteq> Inl e"
    proof (cases "fst st = []")
      case True
      then show ?thesis using 1(2) by auto
    next
      case False
      from forIn_total[OF dom, of "[0..<length (fst st)]" "snd st"]
      obtain st' where run: "forIn deps [0..<length (fst st)] st = Inr st'" by auto
      then have call: "whileKeys' deps st' = Some r" using 1(2) False by simp
      from run have "forIn deps [0..<length (fst st)] (fst st, snd st) = Inr (fst st', snd st')"
        by simp
      from forIn_keys_subset[OF this] dom have "set (fst st') \<subseteq> fst ` set deps" by blast
      with 1(1)[OF call] show ?thesis by blast
    qed
  qed
qed

lemma dependencyOrder_no_error:
  "dependencyOrder tables \<noteq> Some (Inl e)"
proof
  assume "dependencyOrder tables = Some (Inl e)"
  then have w: "whileKeys (dependencies tables) (map fst tables, []) = Some (Inl e)"
    by (simp add: dependencyOrder_def Let_def fst_dependencies)
  have "set (map fst tables) \<subseteq> fst ` set (dependencies tables)"
    using fst_dependencies[of tables] by (metis set_map subset_refl)
  with whileKeys_no_error[OF w] show False by simp
qed

lemma dependencyOrder_wellPlaced:
  assumes r: "dependencyOrder tables = Some (Inr out)"
  shows "wellPlaced (dependencies tables) out"
proof -
  from r have w: "whileKeys (dependencies tables) (map fst tables, []) = Some (Inr out)"
    by (simp add: dependencyOrder_def Let_def fst_dependencies)
  have wp0: "wellPlaced (dependencies tables) []" by (simp add: wellPlaced_def)
  from whileKeys_sound[OF w] wp0 show ?thesis by auto
qed

lemma edge_positions:
  assumes d: "distinct (map fst tables)" and r: "dependencyOrder tables = Some (Inr out)"
    and e: "(a, b) \<in> set (fkEdges tables)"
  shows "\<exists>i j. j < i \<and> i < length out \<and> out ! i = a \<and> out ! j = b"
proof -
  from dependencyOrder_sound[OF d r] have ms: "mset out = mset (map fst tables)" by simp
  then have so: "set out = set (map fst tables)" by (metis set_mset_mset)
  from e have "(a, b) \<in> edgesOf (dependencies tables)" by (simp add: edgesOf_dependencies[OF d])
  then obtain ds where ds: "map_of (dependencies tables) a = Some ds" "b \<in> set ds"
    by (auto simp: edgesOf_def)
  from ds(1) have "a \<in> dom (map_of (dependencies tables))" by blast
  then have "a \<in> fst ` set (dependencies tables)" by (simp add: dom_map_of_conv_image_fst)
  then have "a \<in> set out" using so fst_dependencies[of tables] by (metis set_map)
  then obtain i where i: "i < length out" "out ! i = a" by (auto simp: in_set_conv_nth)
  from dependencyOrder_wellPlaced[OF r] i ds have "b \<in> set (take i out)"
    by (auto simp: wellPlaced_def)
  then obtain j where "j < i" "out ! j = b" using i(1) by (auto simp: in_set_conv_nth)
  with i show ?thesis by blast
qed

lemma dependencyOrder_returns_acyclic_closed:
  assumes d: "distinct (map fst tables)" and r: "dependencyOrder tables = Some (Inr out)"
  shows "acyclic (set (fkEdges tables))" and "fkClosed tables"
proof -
  from dependencyOrder_sound[OF d r] have ms: "mset out = mset (map fst tables)"
    and dout: "distinct out" by simp_all
  from ms have so: "set out = set (map fst tables)" by (metis set_mset_mset)
  have pos: "(a, b) \<in> (set (fkEdges tables))\<^sup>+ \<Longrightarrow>
      \<exists>i j. j < i \<and> i < length out \<and> out ! i = a \<and> out ! j = b" for a b
  proof (induction rule: trancl_induct)
    case (base y)
    then show ?case by (rule edge_positions[OF d r])
  next
    case (step y z)
    from step.IH obtain i j where ij: "j < i" "i < length out" "out ! i = a" "out ! j = y" by blast
    from edge_positions[OF d r step.hyps(2)] obtain i' j'
      where ij': "j' < i'" "i' < length out" "out ! i' = y" "out ! j' = z" by blast
    from ij ij' have "out ! i' = out ! j" "i' < length out" "j < length out" by simp_all
    with dout have "i' = j" by (simp add: nth_eq_iff_index_eq)
    with ij ij' have "j' < i" by simp
    with ij ij' show ?case by blast
  qed
  show "acyclic (set (fkEdges tables))"
  proof (rule acyclicI, intro allI notI)
    fix a assume "(a, a) \<in> (set (fkEdges tables))\<^sup>+"
    from pos[OF this] obtain i j where ij: "j < i" "i < length out" "out ! i = a" "out ! j = a" by blast
    then have "out ! i = out ! j" "i < length out" "j < length out" by simp_all
    with dout have "i = j" by (simp add: nth_eq_iff_index_eq)
    with ij(1) show False by simp
  qed
  show "fkClosed tables"
    unfolding fkClosed_def list_all_iff
  proof (intro ballI)
    fix e assume e: "e \<in> set (fkEdges tables)"
    obtain a b where ab: "e = (a, b)" by (cases e)
    from edge_positions[OF d r e[unfolded ab]] obtain i j
      where "j < i" "i < length out" "out ! j = b" by blast
    then have "j < length out" "out ! j = b" by simp_all
    then have "b \<in> set out" by (metis nth_mem)
    then show "case e of (table, r) \<Rightarrow> r \<in> set (map fst tables)" using ab so by simp
  qed
qed

lemma dependencyOrder_None_iff:
  assumes d: "distinct (map fst tables)"
  shows "dependencyOrder tables = None \<longleftrightarrow> \<not> (acyclic (set (fkEdges tables)) \<and> fkClosed tables)"
proof
  assume n: "dependencyOrder tables = None"
  show "\<not> (acyclic (set (fkEdges tables)) \<and> fkClosed tables)"
  proof
    assume "acyclic (set (fkEdges tables)) \<and> fkClosed tables"
    with dependencyOrder_terminates[OF d] n show False by auto
  qed
next
  assume c: "\<not> (acyclic (set (fkEdges tables)) \<and> fkClosed tables)"
  show "dependencyOrder tables = None"
  proof (cases "dependencyOrder tables")
    case None
    then show ?thesis .
  next
    case (Some r)
    show ?thesis
    proof (cases r)
      case (Inl e)
      with Some dependencyOrder_no_error show ?thesis by blast
    next
      case (Inr out)
      with Some dependencyOrder_returns_acyclic_closed[OF d] c show ?thesis by blast
    qed
  qed
qed

lemma schemaSQL_append: "schemaSQL tables (xs @ ys) = schemaSQL tables xs @ schemaSQL tables ys"
  by (simp add: schemaSQL_def)

lemma schemaSQL_Cons: "schemaSQL tables (v # vs) = tableText tables v @ schemaSQL tables vs"
  by (simp add: schemaSQL_def)

lemma tableText_header:
  "map_of tables a = Some ta \<Longrightarrow> \<not> is_view ta \<Longrightarrow>
     \<exists>rest. tableText tables a = ''create table '' @ a @ '' ('' @ rest"
  by (simp add: tableText_def createTableText_def)

lemma split_at_two:
  assumes "j < i" "i < length out"
  shows "\<exists>o1 o2 o3. out = o1 @ out ! j # o2 @ out ! i # o3"
proof -
  define p where "p = take i out"
  have jp: "j < length p" using assms by (simp add: p_def)
  have b: "take j p @ p ! j # drop (Suc j) p = p" by (rule id_take_nth_drop[OF jp, symmetric])
  have c: "p ! j = out ! j" using assms by (simp add: p_def)
  have "take j p @ out ! j # drop (Suc j) p @ out ! i # drop (Suc i) out =
        (take j p @ p ! j # drop (Suc j) p) @ out ! i # drop (Suc i) out"
    by (simp add: c)
  also have "\<dots> = p @ out ! i # drop (Suc i) out" by (simp only: b)
  also have "\<dots> = out" unfolding p_def by (rule id_take_nth_drop[OF assms(2), symmetric])
  finally have "out = take j p @ out ! j # drop (Suc j) p @ out ! i # drop (Suc i) out"
    by (rule sym)
  then show ?thesis by (intro exI)
qed

lemma exportedCode_returns:
  assumes "exportedCode tables = Some (Inr code)"
  obtains out where "dependencyOrder tables = Some (Inr out)"
proof (cases "dependencyOrder tables")
  case None
  with assms show ?thesis by (simp add: exportedCode_def)
next
  case (Some r)
  with assms that show ?thesis by (cases r) (simp_all add: exportedCode_def)
qed

lemma column_edge:
  assumes "map_of tables b = Some tb" "c \<in> set (columns tb)" "fk c = Some s"
    "fkTableName s = a" "a \<noteq> b"
  shows "(b, a) \<in> set (fkEdges tables)"
proof -
  from assms(1) have m: "(b, tb) \<in> set tables" by (rule map_of_SomeD)
  from assms(3,4) have "a \<in> set (referencedTable c)"
    by (simp add: referencedTable_def fkTableName_def)
  with assms(2) have "a \<in> set (concat (map referencedTable (columns tb)))"
    by (simp only: set_concat set_map) blast
  with assms(5) have "(b, a) \<in> set (map (Pair b) (filter (\<lambda>r. r \<noteq> b)
      (concat (map referencedTable (columns tb)))))" by simp
  then have "(b, a) \<in> set ((\<lambda>(table, value).
        map (Pair table) (filter (\<lambda>r. r \<noteq> table) (concat (map referencedTable (columns value)))))
        (b, tb))" by simp
  with m show ?thesis unfolding fkEdges_def set_concat set_map by blast
qed

lemma exportedCode_order:
  assumes d: "distinct (map fst tables)" and r: "exportedCode tables = Some (Inr code)"
    and A: "map_of tables a = Some ta" "\<not> is_view ta"
    and B: "map_of tables b = Some tb" "\<not> is_view tb"
    and e: "(b, a) \<in> set (fkEdges tables)"
  shows "\<exists>pre mid post.
           code = pre @ ''create table '' @ a @ '' ('' @ mid @ ''create table '' @ b @ '' ('' @ post"
proof -
  from r obtain out where o: "dependencyOrder tables = Some (Inr out)" by (rule exportedCode_returns)
  from exportedCode_text[OF d o] r have code: "code = schemaSQL tables out" by simp
  from edge_positions[OF d o e] obtain i j where ij: "j < i" "i < length out" "out ! i = b" "out ! j = a"
    by blast
  from split_at_two[OF ij(1,2)] ij(3,4) obtain o1 o2 o3 where s: "out = o1 @ a # o2 @ b # o3" by auto
  from tableText_header[OF A] obtain ra where ra: "tableText tables a = ''create table '' @ a @ '' ('' @ ra"
    by blast
  from tableText_header[OF B] obtain rb where rb: "tableText tables b = ''create table '' @ b @ '' ('' @ rb"
    by blast
  have "code = schemaSQL tables o1 @ ''create table '' @ a @ '' ('' @ (ra @ schemaSQL tables o2)
                 @ ''create table '' @ b @ '' ('' @ (rb @ schemaSQL tables o3)"
    unfolding code s by (simp add: schemaSQL_append schemaSQL_Cons ra rb)
  then show ?thesis by blast
qed

section \<open>Proofs: the exports of the example schemas\<close>

lemma exportedCode_reversedBlogSchema: "exportedCode reversedBlogSchema = Some (Inr blogSQL)"
  by code_simp

lemma exportedCode_blogSchema: "exportedCode blogSchema = Some (Inr blogSQL)"
  by code_simp

lemma exportedCode_accountsSchema: "exportedCode accountsSchema = Some (Inr accountsSQL)"
  by code_simp

lemma dependencyOrder_accountsSchema:
  "dependencyOrder accountsSchema = Some (Inr [''active_users'', ''users'', ''accounts''])"
  by code_simp

lemma dependencyOrder_reversedBlogSchema:
  "dependencyOrder reversedBlogSchema = Some (Inr [''users'', ''posts''])"
  by code_simp

lemma dependencyOrder_blogSchema:
  "dependencyOrder blogSchema = Some (Inr [''users'', ''posts''])"
  by code_simp

lemma fkEdges_reversedBlogSchema: "fkEdges reversedBlogSchema = [(''posts'', ''users'')]"
  by code_simp

lemma fkEdges_blogSchema: "fkEdges blogSchema = [(''posts'', ''users'')]"
  by code_simp

lemma fkEdges_cyclicState: "fkEdges (schemaState cyclicState) = [(''a'', ''b''), (''b'', ''a'')]"
  by code_simp

lemma keys_cyclicState: "map fst (schemaState cyclicState) = [''a'', ''b'']"
  by code_simp

lemma acyclic_no_edges: "acyclic {}"
  by (simp add: acyclic_def)

lemma acyclic_reversedBlogSchema: "acyclic (set (fkEdges reversedBlogSchema))"
  by (simp add: fkEdges_reversedBlogSchema acyclic_no_edges)

lemma acyclic_blogSchema: "acyclic (set (fkEdges blogSchema))"
  by (simp add: fkEdges_blogSchema acyclic_no_edges)

lemma cyclic_cyclicState: "\<not> acyclic (set (fkEdges (schemaState cyclicState)))"
proof -
  have "(''a'', ''b'') \<in> set (fkEdges (schemaState cyclicState))"
    "(''b'', ''a'') \<in> set (fkEdges (schemaState cyclicState))"
    by (simp_all add: fkEdges_cyclicState)
  then have "(''a'', ''a'') \<in> (set (fkEdges (schemaState cyclicState)))\<^sup>+"
    by (rule trancl_into_trancl[OF r_into_trancl])
  then show ?thesis by (auto simp: acyclic_def)
qed

lemma fkClosed_reversedBlogSchema: "fkClosed reversedBlogSchema"
  by code_simp

lemma fkClosed_blogSchema: "fkClosed blogSchema"
  by code_simp

lemma schemaSQL_accountsSchema:
  "schemaSQL accountsSchema [''active_users'', ''users'', ''accounts''] = accountsSQL"
  by code_simp

section \<open>Dependency order (claim C1)\<close>

text \<open>
  Claim C1, amended. For a schema with distinct keys: (1) when the reference graph is
  acyclic and every referenced name is a table of the schema, the ordering loop and
  the SQL export return; (2) whatever the loop returns is a rearrangement of the table
  keys in which no table stands before a table it references (a table at place \<open>i\<close>
  that references the table at place \<open>j\<close> has \<open>j < i\<close>); (3) whenever the SQL export
  returns, and a table \<open>b\<close> that is not a view has a column whose \<open>fk\<close> names another
  table \<open>a\<close> that is not a view, the text holds \<open>create table a (\<close> and, further on,
  \<open>create table b (\<close>. With \<open>a = users\<close> and \<open>b = posts\<close> this is the specification's
  scenario.
\<close>

theorem dependency_order_correct:
  assumes "distinct (map fst tables)"
  shows "(acyclic (set (fkEdges tables)) \<and> fkClosed tables \<longrightarrow>
            (\<exists>output code. dependencyOrder tables = Some (Inr output)
                \<and> exportedCode tables = Some (Inr code)))
     \<and> (\<forall>output. dependencyOrder tables = Some (Inr output) \<longrightarrow>
            mset output = mset (map fst tables) \<and> placedAfterTargets tables output)
     \<and> (\<forall>code a ta b tb c s.
            exportedCode tables = Some (Inr code)
            \<and> map_of tables a = Some ta \<and> \<not> is_view ta
            \<and> map_of tables b = Some tb \<and> \<not> is_view tb
            \<and> c \<in> set (columns tb) \<and> fk c = Some s \<and> fkTableName s = a \<and> a \<noteq> b \<longrightarrow>
            (\<exists>pre mid post.
               code = pre @ ''create table '' @ a @ '' ('' @ mid @ ''create table '' @ b @ '' ('' @ post))"
proof (intro conjI allI impI)
  assume "acyclic (set (fkEdges tables)) \<and> fkClosed tables"
  then obtain out where "dependencyOrder tables = Some (Inr out)"
    using dependencyOrder_terminates[OF assms] by blast
  then show "\<exists>output code. dependencyOrder tables = Some (Inr output)
      \<and> exportedCode tables = Some (Inr code)"
    using exportedCode_text[OF assms] by blast
next
  fix out assume "dependencyOrder tables = Some (Inr out)"
  from dependencyOrder_sound[OF assms this]
  show "mset out = mset (map fst tables)" "placedAfterTargets tables out" by simp_all
next
  fix code a ta b tb c s
  assume h: "exportedCode tables = Some (Inr code)
            \<and> map_of tables a = Some ta \<and> \<not> is_view ta
            \<and> map_of tables b = Some tb \<and> \<not> is_view tb
            \<and> c \<in> set (columns tb) \<and> fk c = Some s \<and> fkTableName s = a \<and> a \<noteq> b"
  then have e: "(b, a) \<in> set (fkEdges tables)" using column_edge[of tables b tb c s a] by blast
  from h exportedCode_order[OF assms _ _ _ _ _ e, of code ta tb]
  show "\<exists>pre mid post.
          code = pre @ ''create table '' @ a @ '' ('' @ mid @ ''create table '' @ b @ '' ('' @ post"
    by blast
qed

text \<open>
  The scenario, with \<open>posts\<close> enumerated before \<open>users\<close>: the loop returns \<open>users\<close>, then
  \<open>posts\<close>, and the exported text creates \<open>users\<close> first.
\<close>

theorem dependency_order_correct_witness:
  "distinct (map fst reversedBlogSchema)
   \<and> acyclic (set (fkEdges reversedBlogSchema))
   \<and> fkClosed reversedBlogSchema
   \<and> dependencyOrder reversedBlogSchema = Some (Inr [''users'', ''posts''])
   \<and> mset [''users'', ''posts''] = mset (map fst reversedBlogSchema)
   \<and> placedAfterTargets reversedBlogSchema [''users'', ''posts'']
   \<and> exportedCode reversedBlogSchema = Some (Inr blogSQL)
   \<and> exportedCode blogSchema = Some (Inr blogSQL)
   \<and> (\<exists>pre mid post.
         blogSQL = pre @ ''create table users ('' @ mid @ ''create table posts ('' @ post)"
proof -
  have d: "distinct (map fst reversedBlogSchema)"
    by (simp add: reversedBlogSchema_def)
  note t = dependency_order_correct [OF d]
  have o: "dependencyOrder reversedBlogSchema = Some (Inr [''users'', ''posts''])"
    by (rule dependencyOrder_reversedBlogSchema)
  from t o have p: "mset [''users'', ''posts''] = mset (map fst reversedBlogSchema)"
    "placedAfterTargets reversedBlogSchema [''users'', ''posts'']" by blast+
  have u: "map_of reversedBlogSchema ''users'' = Some usersTable" "\<not> is_view usersTable"
    by (simp_all add: reversedBlogSchema_def usersTable_def)
  have q: "map_of reversedBlogSchema ''posts'' = Some postsTable" "\<not> is_view postsTable"
    by (simp_all add: reversedBlogSchema_def postsTable_def)
  define c where "c = (plainColumn ''user_id'' ''uuid'')\<lparr>fk := Some ''users.id''\<rparr>"
  have c: "c \<in> set (columns postsTable)" "fk c = Some ''users.id''"
    by (simp_all add: c_def postsTable_def plainColumn_def)
  have n: "fkTableName ''users.id'' = ''users''" "''users'' \<noteq> ''posts''"
    by (simp_all add: fkTableName_def)
  from t exportedCode_reversedBlogSchema u q c n
  have x: "\<exists>pre mid post.
         blogSQL = pre @ ''create table '' @ ''users'' @ '' ('' @ mid
                     @ ''create table '' @ ''posts'' @ '' ('' @ post"
    by blast
  then have "\<exists>pre mid post.
         blogSQL = pre @ ''create table users ('' @ mid @ ''create table posts ('' @ post"
    by simp
  with d acyclic_reversedBlogSchema fkClosed_reversedBlogSchema o p
    exportedCode_reversedBlogSchema exportedCode_blogSchema
  show ?thesis by blast
qed

text \<open>
  The claim as it was written fails on an acyclic graph with a reference to a table
  that is not there. After \<open>renameTable("users", "app_users")\<close> the scenario's \<open>posts\<close>
  still references \<open>users\<close>, its one edge closes no cycle, and neither the ordering loop
  nor the export returns: there is no order and no text. And with \<open>users\<close> a view the
  export returns a text that holds no \<open>create table users\<close>.
\<close>

theorem dangling_reference_never_returns:
  "schemaState renamedState =
     [(''posts'', postsTable), (''app_users'', usersTable\<lparr>t_title := ''app_users''\<rparr>)]
   \<and> fkEdges (schemaState renamedState) = [(''posts'', ''users'')]
   \<and> acyclic (set (fkEdges (schemaState renamedState)))
   \<and> dependencyOrder (schemaState renamedState) = None
   \<and> exportedCode (schemaState renamedState) = None
   \<and> fkEdges viewUsersSchema = [(''posts'', ''users'')]
   \<and> exportedCode viewUsersSchema = Some (Inr postsSQL)
   \<and> \<not> js_includes postsSQL ''create table users''"
proof -
  have r: "schemaState renamedState =
     [(''posts'', postsTable), (''app_users'', usersTable\<lparr>t_title := ''app_users''\<rparr>)]"
    by code_simp
  have e: "fkEdges (schemaState renamedState) = [(''posts'', ''users'')]" by code_simp
  have a: "acyclic (set (fkEdges (schemaState renamedState)))"
    unfolding e by (simp add: acyclic_no_edges)
  have d: "distinct (map fst (schemaState renamedState))" by (simp add: r)
  have c: "\<not> fkClosed (schemaState renamedState)" by code_simp
  from dependencyOrder_None_iff [OF d] c
  have n: "dependencyOrder (schemaState renamedState) = None" by blast
  then have x: "exportedCode (schemaState renamedState) = None" by (simp add: exportedCode_def)
  have v: "fkEdges viewUsersSchema = [(''posts'', ''users'')]" by code_simp
  have w: "exportedCode viewUsersSchema = Some (Inr postsSQL)" by code_simp
  have i: "\<not> js_includes postsSQL ''create table users''" by code_simp
  from r e a n x v w i show ?thesis by blast
qed

section \<open>Cyclic references (claim C2)\<close>

text \<open>
  Claim C2, amended. The ordering loop has no bound on its runs, detects no cycle and
  raises no error. For a schema with distinct keys it returns a list exactly when the
  reference graph is acyclic and every referenced name is a table of the schema; in
  every other case, so on a true cycle, it never returns.
\<close>

theorem dependencyOrder_returns_iff:
  assumes "distinct (map fst tables)"
  shows "((\<exists>output. dependencyOrder tables = Some (Inr output)) \<longleftrightarrow>
            acyclic (set (fkEdges tables)) \<and> fkClosed tables)
     \<and> (dependencyOrder tables = None \<longleftrightarrow>
            \<not> (acyclic (set (fkEdges tables)) \<and> fkClosed tables))
     \<and> (\<forall>e. dependencyOrder tables \<noteq> Some (Inl e))"
  using dependencyOrder_None_iff[OF assms] dependencyOrder_terminates[OF assms]
    dependencyOrder_returns_acyclic_closed[OF assms] dependencyOrder_no_error[of tables]
  by blast

text \<open>
  The scenario is acyclic and closed, and the loop returns on it; the two tables that
  reference each other form a cycle, and the loop does not return on them.
\<close>

theorem dependencyOrder_returns_iff_witness:
  "distinct (map fst blogSchema)
   \<and> acyclic (set (fkEdges blogSchema)) \<and> fkClosed blogSchema
   \<and> (\<exists>output. dependencyOrder blogSchema = Some (Inr output))
   \<and> distinct (map fst (schemaState cyclicState))
   \<and> \<not> acyclic (set (fkEdges (schemaState cyclicState)))
   \<and> \<not> (\<exists>output. dependencyOrder (schemaState cyclicState) = Some (Inr output))"
proof -
  have d1: "distinct (map fst blogSchema)" by (simp add: blogSchema_def)
  have d2: "distinct (map fst (schemaState cyclicState))" by (simp add: keys_cyclicState)
  from dependencyOrder_returns_iff [OF d1] acyclic_blogSchema fkClosed_blogSchema
  have a: "\<exists>output. dependencyOrder blogSchema = Some (Inr output)" by blast
  from dependencyOrder_returns_iff [OF d2] cyclic_cyclicState
  have b: "\<not> (\<exists>output. dependencyOrder (schemaState cyclicState) = Some (Inr output))" by blast
  from d1 d2 a b acyclic_blogSchema fkClosed_blogSchema cyclic_cyclicState show ?thesis by blast
qed

text \<open>
  The claim as it was written fails on the code: with table \<open>a\<close> referencing \<open>b\<close> and \<open>b\<close>
  referencing \<open>a\<close>, the ordering loop does not terminate, and neither does the export;
  no error is returned.
\<close>

theorem dependencyOrder_cycle_never_returns:
  "map fst (schemaState cyclicState) = [''a'', ''b'']
   \<and> fkEdges (schemaState cyclicState) = [(''a'', ''b''), (''b'', ''a'')]
   \<and> dependencyOrder (schemaState cyclicState) = None
   \<and> exportedCode (schemaState cyclicState) = None"
proof -
  have d: "distinct (map fst (schemaState cyclicState))" by (simp add: keys_cyclicState)
  from dependencyOrder_None_iff [OF d] cyclic_cyclicState
  have n: "dependencyOrder (schemaState cyclicState) = None" by blast
  then have "exportedCode (schemaState cyclicState) = None" by (simp add: exportedCode_def)
  with n keys_cyclicState fkEdges_cyclicState show ?thesis by blast
qed

section \<open>The CREATE TABLE text (claim C8)\<close>

text \<open>
  Claim C8. Whenever the ordering loop returns, the exported text is, table by table in
  the returned order, nothing for a view and otherwise \<open>create table <id> (\<close>, a
  newline, the column lines, \<open>);\<close> and two newlines. A column line is two spaces; the
  title, in double quotes exactly when it is one of the fourteen reserved words; a
  space and \<open>serial\<close> when the format is \<open>integer\<close> and the column is a primary key, else
  the format as it is; \<open>references <table> (<column>)\<close> exactly when \<open>fk\<close> is set, that is
  a non-empty string; \<open>default now()\<close> when the format is \<open>date\<close> or contains
  \<open>timestamp\<close>; \<open>default uuid_generate_v4()\<close> when the column is required, of format
  \<open>uuid\<close> and without \<open>fk\<close>, else \<open>not null\<close> when it is required and without \<open>fk\<close>;
  \<open>primary key\<close> exactly when \<open>pk\<close>; then a newline on the last line and a comma and a
  newline on every earlier one. The code builds the text by appending clause after
  clause to one string; \<open>schemaSQL\<close>, \<open>createTableText\<close> and \<open>columnLine\<close> are the rule as
  the specification words it.
\<close>

theorem exportedCode_is_schemaSQL:
  assumes "distinct (map fst tables)" and "dependencyOrder tables = Some (Inr output)"
  shows "exportedCode tables = Some (Inr (schemaSQL tables output))
     \<and> (\<forall>ident t code. map_of tables ident = Some t \<longrightarrow>
           emitTable tables code ident =
             Inr (code @ (if is_view t then [] else createTableText ident t)))
     \<and> (\<forall>code v i arr. emitColumn code v i arr = code @ columnLine v (Suc i = length arr))"
proof (intro conjI allI impI)
  show "exportedCode tables = Some (Inr (schemaSQL tables output))"
    by (rule exportedCode_text[OF assms])
next
  fix ident t and code :: string assume m: "map_of tables ident = Some t"
  from emitTable_text[OF m, of code] m
  show "emitTable tables code ident = Inr (code @ (if is_view t then [] else createTableText ident t))"
    by (simp add: tableText_def)
next
  fix code :: string and v :: Column and i :: nat and arr :: "Column list"
  have "(int i = int (length arr) - 1) = (Suc i = length arr)" by auto
  then show "emitColumn code v i arr = code @ columnLine v (Suc i = length arr)"
    by (simp add: emitColumn_columnLine)
qed

text \<open>
  A schema with a reserved word, an integer primary key, a required foreign key, a
  timestamp, a date and a view: the exported text, character by character.
\<close>

theorem exportedCode_is_schemaSQL_witness:
  "distinct (map fst accountsSchema)
   \<and> dependencyOrder accountsSchema = Some (Inr [''active_users'', ''users'', ''accounts''])
   \<and> exportedCode accountsSchema = Some (Inr accountsSQL)
   \<and> schemaSQL accountsSchema [''active_users'', ''users'', ''accounts''] = accountsSQL"
proof -
  have d: "distinct (map fst accountsSchema)" by (simp add: accountsSchema_def)
  from exportedCode_is_schemaSQL [OF d dependencyOrder_accountsSchema]
  have "exportedCode accountsSchema =
          Some (Inr (schemaSQL accountsSchema [''active_users'', ''users'', ''accounts'']))"
    by blast
  with d dependencyOrder_accountsSchema schemaSQL_accountsSchema show ?thesis by simp
qed

section \<open>Operation history (claim C3)\<close>

text \<open>
  Claim C3 says that the records of a run, their \<open>before\<close> values applied last record
  first, give back the schema the run started from. Every mutating tool calls
  \<open>recordOperation\<close> with the key it read \<open>before\<close> from, except \<open>renameTable\<close>: its record
  carries the new key and the snapshot of the table as it stood under the old one, and
  no field of the record but the text of \<open>description\<close> holds the old key. On the
  scenario, \<open>renameTable("users", "app_users")\<close> leaves one record with \<open>tableId\<close>
  \<open>app_users\<close>, a key the schema did not have, and \<open>before\<close> the \<open>users\<close> table; the record
  of \<open>dropTable("users")\<close> has \<open>tableId\<close> \<open>users\<close>. So the record does not say where
  \<open>before\<close> belongs: a request that starts with the table under \<open>users\<close> and a request
  that starts with the same table under \<open>public.users\<close> end, after the rename to
  \<open>app_users\<close>, with the same schema and with records equal in \<open>id\<close>, \<open>type\<close>, \<open>tableId\<close>,
  \<open>before\<close>, \<open>after\<close> and \<open>timestamp\<close>.
\<close>

theorem renameTable_record_keeps_new_key:
  "schemaState blogState = blogSchema
   \<and> map fst blogSchema = [''users'', ''posts'']
   \<and> ok (fst (renameTable env3 ''users'' ''app_users'' blogState)) = Some True
   \<and> map (\<lambda>r. (op_type r, tableId r, before r, after r))
         (drop (length (operationHistory blogState)) (operationHistory renamedState)) =
       [(OpRenameTable, ''app_users'', Some usersTable, Some (usersTable\<lparr>t_title := ''app_users''\<rparr>))]
   \<and> map (\<lambda>r. (op_type r, tableId r, before r, after r))
         (drop (length (operationHistory blogState))
            (operationHistory (snd (dropTable env3 ''users'' blogState)))) =
       [(OpDropTable, ''users'', Some usersTable, None)]
   \<and> schemaState (snd (createTable env1 ''users'' usersColumns None (initialState []))) =
       schemaState usersState
   \<and> schemaState (snd (createTable env1 ''public.users'' usersColumns None (initialState []))) =
       schemaState publicUsersState
   \<and> schemaState usersState \<noteq> schemaState publicUsersState
   \<and> ok (fst (renameTable env3 ''users'' ''app_users'' usersState)) = Some True
   \<and> ok (fst (renameTable env3 ''public.users'' ''app_users'' publicUsersState)) = Some True
   \<and> schemaState (snd (renameTable env3 ''users'' ''app_users'' usersState)) =
       schemaState (snd (renameTable env3 ''public.users'' ''app_users'' publicUsersState))
   \<and> map (\<lambda>r. (op_id r, op_type r, tableId r, before r, after r, timestamp r))
         (operationHistory (snd (renameTable env3 ''users'' ''app_users'' usersState))) =
       map (\<lambda>r. (op_id r, op_type r, tableId r, before r, after r, timestamp r))
         (operationHistory (snd (renameTable env3 ''public.users'' ''app_users'' publicUsersState)))
   \<and> length (operationHistory (snd (renameTable env3 ''users'' ''app_users'' usersState))) = 1"
  by code_simp

end
